theory Spec2Isabelle
  imports Main "HOL-Library.AList"
begin

section \<open>JavaScript string primitives used by the resolvers visitor\<close>

text \<open>
  Strings are lists of characters. \<open>startsWith\<close>, \<open>includes_str\<close> (the method
  \<^verbatim>\<open>includes\<close>) and \<open>join\<close> are the methods of \<^verbatim>\<open>String.prototype\<close> and
  \<^verbatim>\<open>Array.prototype\<close> of these names.
\<close>

fun startsWith :: "string \<Rightarrow> string \<Rightarrow> bool" where
  "startsWith s [] = True"
| "startsWith [] (p # ps) = False"
| "startsWith (c # cs) (p # ps) = (c = p \<and> startsWith cs ps)"

fun includes_str :: "string \<Rightarrow> string \<Rightarrow> bool" where
  "includes_str [] p = startsWith [] p"
| "includes_str (c # cs) p = (startsWith (c # cs) p \<or> includes_str cs p)"

fun join :: "string list \<Rightarrow> string \<Rightarrow> string" where
  "join [] sep = []"
| "join [x] sep = x"
| "join (x # y # ys) sep = x @ sep @ join (y # ys) sep"

text \<open>
  \<^verbatim>\<open>str.replace(pattern, replacement)\<close> with a string pattern replaces the first
  occurrence only, and the replacement text is expanded by the language's
  \<^verbatim>\<open>GetSubstitution\<close>: \<^verbatim>\<open>$$\<close> is a dollar sign, \<^verbatim>\<open>$&\<close> the matched text, \<^verbatim>\<open>$`\<close> the text
  before the match and \<^verbatim>\<open>$'\<close> the text after it. A string pattern has no capture
  groups, so \<^verbatim>\<open>$1\<close> and the like stay as they are.
\<close>

fun findFirst :: "string \<Rightarrow> string \<Rightarrow> (string \<times> string) option" where
  "findFirst p [] = (if p = [] then Some ([], []) else None)"
| "findFirst p (c # cs) =
     (if startsWith (c # cs) p then Some ([], drop (length p) (c # cs))
      else (case findFirst p cs of
              None \<Rightarrow> None
            | Some (front, rest) \<Rightarrow> Some (c # front, rest)))"

fun getSubstitution :: "string \<Rightarrow> string \<Rightarrow> string \<Rightarrow> string \<Rightarrow> string" where
  "getSubstitution matched front rest [] = []"
| "getSubstitution matched front rest [c] = [c]"
| "getSubstitution matched front rest (c # d # r) =
     (if c = CHR ''$'' then
        (if d = CHR ''$'' then CHR ''$'' # getSubstitution matched front rest r
         else if d = CHR ''&'' then matched @ getSubstitution matched front rest r
         else if d = CHR 0x60 then front @ getSubstitution matched front rest r
         else if d = CHR 0x27 then rest @ getSubstitution matched front rest r
         else c # getSubstitution matched front rest (d # r))
      else c # getSubstitution matched front rest (d # r))"

definition replace :: "string \<Rightarrow> string \<Rightarrow> string \<Rightarrow> string" where
  "replace str pattern replacement =
     (case findFirst pattern str of
        None \<Rightarrow> str
      | Some (front, rest) \<Rightarrow>
          front @ getSubstitution pattern front rest replacement @ rest)"

text \<open>
  \<^verbatim>\<open>str.replace(/Maybe<(.*?)>$/, '$1')\<close> and its sibling for \<^verbatim>\<open>ResolverTypeWrapper<\<close>:
  the regular expression is not anchored at the start, so the engine tries every start
  position from the left. At one position it matches when the literal \<open>lit\<close> stands
  there, the input ends with \<^verbatim>\<open>>\<close>, and no line terminator lies in between (the dot
  does not match one); the lazy group then is everything between the literal and that
  last \<^verbatim>\<open>>\<close>. The match, which runs to the end of the input, is replaced by the group.
  Characters are 8-bit here, so of the line terminators only LF and CR exist.
\<close>

definition isLineTerminator :: "char \<Rightarrow> bool" where
  "isLineTerminator c = (c = CHR 0x0A \<or> c = CHR 0x0D)"

definition noLineTerminator :: "string \<Rightarrow> bool" where
  "noLineTerminator s = list_all (\<lambda>c. \<not> isLineTerminator c) s"

definition matchTail :: "string \<Rightarrow> string \<Rightarrow> string option" where
  "matchTail lit s =
     (if startsWith s lit then
        (let r = drop (length lit) s in
         if r \<noteq> [] \<and> last r = CHR ''>'' \<and> noLineTerminator (butlast r)
         then Some (butlast r) else None)
      else None)"

fun replaceTail :: "string \<Rightarrow> string \<Rightarrow> string" where
  "replaceTail lit [] = []"
| "replaceTail lit (c # cs) =
     (case matchTail lit (c # cs) of
        Some captured \<Rightarrow> captured
      | None \<Rightarrow> c # replaceTail lit cs)"

section \<open>Wrapping helpers of \<open>BaseResolversVisitor\<close>\<close>

definition applyMaybe :: "string \<Rightarrow> string" where
  "applyMaybe str = ''Maybe<'' @ str @ ''>''"

definition clearMaybe :: "string \<Rightarrow> string" where
  "clearMaybe str = (if startsWith str ''Maybe<'' then replaceTail ''Maybe<'' str else str)"

definition clearResolverTypeWrapper :: "string \<Rightarrow> string" where
  "clearResolverTypeWrapper str =
     (if startsWith str ''ResolverTypeWrapper<''
      then replaceTail ''ResolverTypeWrapper<'' str else str)"

definition applyResolverTypeWrapper :: "string \<Rightarrow> string" where
  "applyResolverTypeWrapper str = ''ResolverTypeWrapper<'' @ clearResolverTypeWrapper str @ ''>''"

text \<open>
  A field's type, as \<^verbatim>\<open>GraphQLOutputType\<close>: list and non-null modifiers around a named
  type. The named type is referred to by its name and looked up in the type map.
\<close>

datatype GraphQLOutputType =
    GraphQLNamed string
  | GraphQLList GraphQLOutputType
  | GraphQLNonNull GraphQLOutputType

fun isNonNullType :: "GraphQLOutputType \<Rightarrow> bool" where
  "isNonNullType (GraphQLNonNull t) = True"
| "isNonNullType t = False"

fun wrapTypeWithModifiers :: "string \<Rightarrow> GraphQLOutputType \<Rightarrow> string" where
  "wrapTypeWithModifiers baseType (GraphQLNonNull ofType) =
     clearMaybe (wrapTypeWithModifiers baseType ofType)"
| "wrapTypeWithModifiers baseType (GraphQLList ofType) =
     applyMaybe (''Array<'' @ wrapTypeWithModifiers baseType ofType @ ''>'')"
| "wrapTypeWithModifiers baseType (GraphQLNamed n) = applyMaybe baseType"


section \<open>Schema, configuration and visitor\<close>

text \<open>
  A named type of the schema, as the classes of graphql-js: the name, and for an object
  or interface type the fields in the order of \<^verbatim>\<open>Object.keys(type.getFields())\<close>, each
  with its \<^verbatim>\<open>field.type\<close>; for a union the names of \<^verbatim>\<open>getTypes()\<close>.
\<close>

datatype GraphQLNamedType =
    GraphQLScalarType string
  | GraphQLObjectType string "(string \<times> GraphQLOutputType) list"
  | GraphQLInterfaceType string "(string \<times> GraphQLOutputType) list"
  | GraphQLUnionType string "string list"
  | GraphQLEnumType string
  | GraphQLInputObjectType string

fun name :: "GraphQLNamedType \<Rightarrow> string" where
  "name (GraphQLScalarType n) = n"
| "name (GraphQLObjectType n fs) = n"
| "name (GraphQLInterfaceType n fs) = n"
| "name (GraphQLUnionType n ms) = n"
| "name (GraphQLEnumType n) = n"
| "name (GraphQLInputObjectType n) = n"

fun isObjectType :: "GraphQLNamedType \<Rightarrow> bool" where
  "isObjectType (GraphQLObjectType n fs) = True"
| "isObjectType t = False"

fun isInterfaceType :: "GraphQLNamedType \<Rightarrow> bool" where
  "isInterfaceType (GraphQLInterfaceType n fs) = True"
| "isInterfaceType t = False"

fun isUnionType :: "GraphQLNamedType \<Rightarrow> bool" where
  "isUnionType (GraphQLUnionType n ms) = True"
| "isUnionType t = False"

fun isEnumType :: "GraphQLNamedType \<Rightarrow> bool" where
  "isEnumType (GraphQLEnumType n) = True"
| "isEnumType t = False"

fun getFields :: "GraphQLNamedType \<Rightarrow> (string \<times> GraphQLOutputType) list" where
  "getFields (GraphQLObjectType n fs) = fs"
| "getFields (GraphQLInterfaceType n fs) = fs"
| "getFields t = []"

fun getTypes :: "GraphQLNamedType \<Rightarrow> string list" where
  "getTypes (GraphQLUnionType n ms) = ms"
| "getTypes t = []"

text \<open>
  The type map \<^verbatim>\<open>schema.getTypeMap()\<close> is the list of the named types in key order; the
  key of a type is its name. \<open>typeNamed\<close> is the read \<^verbatim>\<open>allSchemaTypes[typeName]\<close>, always
  with a key of the map itself. In graphql-js a field holds its type as an object of the
  same type map, so a name that the map lacks is never asked for; the model answers with
  a scalar of that name.
\<close>

fun typeNamed :: "GraphQLNamedType list \<Rightarrow> string \<Rightarrow> GraphQLNamedType" where
  "typeNamed [] n = GraphQLScalarType n"
| "typeNamed (t # ts) n = (if name t = n then t else typeNamed ts n)"

fun baseTypeName :: "GraphQLOutputType \<Rightarrow> string" where
  "baseTypeName (GraphQLNamed n) = n"
| "baseTypeName (GraphQLList ofType) = baseTypeName ofType"
| "baseTypeName (GraphQLNonNull ofType) = baseTypeName ofType"

definition getBaseType :: "GraphQLNamedType list \<Rightarrow> GraphQLOutputType \<Rightarrow> GraphQLNamedType" where
  "getBaseType typeMap fieldType = typeNamed typeMap (baseTypeName fieldType)"

section \<open>Reads and writes of plain objects\<close>

text \<open>
  \<^verbatim>\<open>config.mappers\<close>, \<^verbatim>\<open>config.scalars\<close>, \<^verbatim>\<open>config.enumValues\<close>, \<^verbatim>\<open>nestedMapping\<close> and
  \<^verbatim>\<open>_usedMappers\<close> are plain objects, read with a type name as key. A read \<^verbatim>\<open>obj[key]\<close>
  gives the object's own property when it has one; otherwise, for a key that names a
  member of \<^verbatim>\<open>Object.prototype\<close>, that inherited member (a function, or for
  \<^verbatim>\<open>__proto__\<close> the prototype itself: truthy, and with no property that the code reads
  from it); otherwise \<^verbatim>\<open>undefined\<close>.
\<close>

definition objectPrototypeMembers :: "string list" where
  "objectPrototypeMembers =
     [''constructor'', ''hasOwnProperty'', ''isPrototypeOf'', ''propertyIsEnumerable'',
      ''toLocaleString'', ''toString'', ''valueOf'', ''__defineGetter__'',
      ''__defineSetter__'', ''__lookupGetter__'', ''__lookupSetter__'', ''__proto__'']"

datatype 'a property = Own 'a | Inherited | Absent

definition getProperty :: "(string \<rightharpoonup> 'a) \<Rightarrow> string \<Rightarrow> 'a property" where
  "getProperty obj key =
     (case obj key of
        Some x \<Rightarrow> Own x
      | None \<Rightarrow> if key \<in> set objectPrototypeMembers then Inherited else Absent)"

text \<open>
  A write \<^verbatim>\<open>obj[key] = value\<close> makes an own property, except for the key \<^verbatim>\<open>__proto__\<close>:
  that write runs the inherited setter, which makes none (a value that is no object is
  dropped, and the prototype itself is what the object has as prototype already).
\<close>

definition setProperty :: "(string \<rightharpoonup> 'a) \<Rightarrow> string \<Rightarrow> 'a \<Rightarrow> (string \<rightharpoonup> 'a)" where
  "setProperty obj key x = (if key = ''__proto__'' then obj else obj(key \<mapsto> x))"

text \<open>
  What \<^verbatim>\<open>nestedMapping\<close> holds and \<open>shouldMapType\<close> returns: a boolean, or a member
  inherited from \<^verbatim>\<open>Object.prototype\<close> that a read has returned.
\<close>

datatype JSValue = JSBoolean bool | JSInheritedMember

fun truthy :: "JSValue \<Rightarrow> bool" where
  "truthy (JSBoolean b) = b"
| "truthy JSInheritedMember = True"

definition readValue :: "(string \<rightharpoonup> JSValue) \<Rightarrow> string \<Rightarrow> JSValue option" where
  "readValue obj key =
     (case getProperty obj key of
        Own x \<Rightarrow> Some x
      | Inherited \<Rightarrow> Some JSInheritedMember
      | Absent \<Rightarrow> None)"

datatype error = TypeError

section \<open>Configuration and visitor\<close>

text \<open>
  \<^verbatim>\<open>ParsedMapper\<close> and the parsed configuration. The objects \<^verbatim>\<open>mappers\<close>, \<^verbatim>\<open>scalars\<close> and
  \<^verbatim>\<open>enumValues\<close> are given by their own properties, as association lists from type
  names; of an enum override only its \<^verbatim>\<open>typeIdentifier\<close> is read.
\<close>

record ParsedMapper =
  isExternal :: bool
  type :: string
  source :: "string option"

record ParsedResolversConfig =
  contextType :: ParsedMapper
  rootValueType :: ParsedMapper
  mappers :: "(string \<times> ParsedMapper) list"
  defaultMapper :: "ParsedMapper option"
  avoidOptionals :: bool
  addUnderscoreToArgsType :: bool
  enumValues :: "(string \<times> string) list"
  scalars :: "(string \<times> string) list"

text \<open>
  The visitor: its configuration, the type map of its schema, \<^verbatim>\<open>_rootTypeNames\<close> (what
  \<^verbatim>\<open>getRootTypeNames\<close> returned) and the name converter of the base visitor.
\<close>

record Visitor =
  config :: ParsedResolversConfig
  typeMap :: "GraphQLNamedType list"
  rootTypeNames :: "string list"
  convertName :: "string \<Rightarrow> string"

text \<open>
  Truthiness of \<^verbatim>\<open>config.mappers[n]\<close> (an object, or an inherited member) and of
  \<^verbatim>\<open>config.scalars[n]\<close> (a string, or an inherited member).
\<close>

definition isMappedType :: "Visitor \<Rightarrow> string \<Rightarrow> bool" where
  "isMappedType v n =
     (case getProperty (map_of (mappers (config v))) n of
        Own m \<Rightarrow> True | Inherited \<Rightarrow> True | Absent \<Rightarrow> False)"

definition isScalarName :: "Visitor \<Rightarrow> string \<Rightarrow> bool" where
  "isScalarName v n =
     (case getProperty (map_of (scalars (config v))) n of
        Own s \<Rightarrow> s \<noteq> [] | Inherited \<Rightarrow> True | Absent \<Rightarrow> False)"

section \<open>The dependency analysis \<open>shouldMapType\<close>\<close>

text \<open>
  \<^verbatim>\<open>Array.prototype.some\<close> with a callback that changes a state (here the array
  \<^verbatim>\<open>duringCheck\<close>, shared by reference): it stops at the first element whose callback
  returns a truthy value, and returns a boolean. \<open>None\<close> is a callback that did not
  return.
\<close>

fun some_st :: "('a \<Rightarrow> 's \<Rightarrow> (bool \<times> 's) option) \<Rightarrow> 'a list \<Rightarrow> 's \<Rightarrow> (bool \<times> 's) option" where
  "some_st f [] s = Some (False, s)"
| "some_st f (x # xs) s =
     (case f x s of
        None \<Rightarrow> None
      | Some (b, s') \<Rightarrow> if b then Some (True, s') else some_st f xs s')"

text \<open>
  \<open>shouldMapType\<close> returns its value and the array \<^verbatim>\<open>duringCheck\<close> as the call left it.
  The first argument bounds the depth of nested calls; \<open>None\<close> is a call that needed a
  deeper nesting than that. The first test returns whatever the read of
  \<^verbatim>\<open>checkedBefore\<close> gives when that is not \<^verbatim>\<open>undefined\<close>. The filter runs over all
  fields before \<^verbatim>\<open>some\<close> starts, so it reads \<^verbatim>\<open>duringCheck\<close> as it was when the call
  began; the callback of \<^verbatim>\<open>some\<close> counts by the truthiness of what it returns.
\<close>

primrec shouldMapType ::
  "nat \<Rightarrow> Visitor \<Rightarrow> GraphQLNamedType \<Rightarrow> (string \<rightharpoonup> JSValue) \<Rightarrow> string list
     \<Rightarrow> (JSValue \<times> string list) option" where
  "shouldMapType 0 v t checkedBefore duringCheck = None"
| "shouldMapType (Suc fuel) v t checkedBefore duringCheck =
     (case readValue checkedBefore (name t) of
        Some x \<Rightarrow> Some (x, duringCheck)
      | None \<Rightarrow>
          if startsWith (name t) ''__'' \<or> isScalarName v (name t)
            then Some (JSBoolean False, duringCheck)
          else if isMappedType v (name t) then Some (JSBoolean True, duringCheck)
          else if isObjectType t \<or> isInterfaceType t then
            (case some_st
                    (\<lambda>(fieldName, ftype) dc.
                       let fieldType = getBaseType (typeMap v) ftype in
                       (case readValue checkedBefore (name fieldType) of
                          Some x \<Rightarrow> Some (truthy x, dc)
                        | None \<Rightarrow>
                            if isMappedType v (name t) then Some (True, dc)
                            else (case shouldMapType fuel v fieldType checkedBefore
                                         (dc @ [name t]) of
                                    None \<Rightarrow> None
                                  | Some (innerResult, dc') \<Rightarrow> Some (truthy innerResult, dc'))))
                    (filter (\<lambda>(fieldName, ftype).
                               name (getBaseType (typeMap v) ftype) \<notin> set duringCheck)
                            (getFields t))
                    duringCheck of
               None \<Rightarrow> None
             | Some (b, dc) \<Rightarrow> Some (JSBoolean b, dc))
          else Some (JSBoolean False, duringCheck))"

text \<open>
  The loop of \<open>createResolversFields\<close> that fills \<^verbatim>\<open>nestedMapping\<close>, one type name after
  the other, each call of \<open>shouldMapType\<close> with a fresh \<^verbatim>\<open>duringCheck\<close>.
\<close>

fun nestedMappingLoop ::
  "nat \<Rightarrow> Visitor \<Rightarrow> string list \<Rightarrow> (string \<rightharpoonup> JSValue) \<Rightarrow> (string \<rightharpoonup> JSValue) option" where
  "nestedMappingLoop fuel v [] nestedMapping = Some nestedMapping"
| "nestedMappingLoop fuel v (typeName # typeNames) nestedMapping =
     (case shouldMapType fuel v (typeNamed (typeMap v) typeName) nestedMapping [] of
        None \<Rightarrow> None
      | Some (x, dc) \<Rightarrow>
          nestedMappingLoop fuel v typeNames (setProperty nestedMapping typeName x))"

section \<open>Building the tables: \<open>createResolversFields\<close>\<close>

definition hasPlaceholder :: "string \<Rightarrow> bool" where
  "hasPlaceholder pattern = includes_str pattern ''{T}''"

definition replacePlaceholder :: "string \<Rightarrow> string \<Rightarrow> string" where
  "replacePlaceholder pattern typename = replace pattern ''{T}'' typename"

definition getScalar :: "string \<Rightarrow> string" where
  "getScalar n = ''Scalars['' @ [CHR 0x27] @ n @ [CHR 0x27] @ '']''"

definition getTypeToUse :: "Visitor \<Rightarrow> string \<Rightarrow> string" where
  "getTypeToUse v n = convertName v ''ResolversTypes'' @ ''['' @ [CHR 0x27] @ n @ [CHR 0x27] @ '']''"

definition hasDefaultMapper :: "Visitor \<Rightarrow> bool" where
  "hasDefaultMapper v =
     (case defaultMapper (config v) of None \<Rightarrow> False | Some m \<Rightarrow> type m \<noteq> [])"

text \<open>\<^verbatim>\<open>config.defaultMapper.type\<close>, read only where \<open>hasDefaultMapper\<close> holds.\<close>

definition defaultMapperType :: "Visitor \<Rightarrow> string" where
  "defaultMapperType v = (case defaultMapper (config v) of None \<Rightarrow> [] | Some m \<Rightarrow> type m)"

text \<open>
  \<^verbatim>\<open>config.mappers[typeName].type\<close>, read only where the read of the mapper is truthy:
  the expression of an own mapper; an inherited member has no such property, and the
  \<^verbatim>\<open>undefined\<close> it gives is the empty string here, falsy like it and used nowhere else.
\<close>

definition mapperTypeOf :: "Visitor \<Rightarrow> string \<Rightarrow> string" where
  "mapperTypeOf v n =
     (case getProperty (map_of (mappers (config v))) n of
        Own m \<Rightarrow> type m | Inherited \<Rightarrow> [] | Absent \<Rightarrow> [])"

text \<open>
  The read \<^verbatim>\<open>config.enumValues[typeName]\<close>: whether it is truthy, and the
  \<^verbatim>\<open>typeIdentifier\<close> of what it returns, which is \<^verbatim>\<open>undefined\<close> (\<open>None\<close>) for an
  inherited member.
\<close>

definition hasEnumValues :: "Visitor \<Rightarrow> string \<Rightarrow> bool" where
  "hasEnumValues v n =
     (case getProperty (map_of (enumValues (config v))) n of
        Own i \<Rightarrow> True | Inherited \<Rightarrow> True | Absent \<Rightarrow> False)"

definition enumTypeIdentifier :: "Visitor \<Rightarrow> string \<Rightarrow> string option" where
  "enumTypeIdentifier v n =
     (case getProperty (map_of (enumValues (config v))) n of
        Own i \<Rightarrow> Some i | Inherited \<Rightarrow> None | Absent \<Rightarrow> None)"

record RelevantField =
  addOptionalSign :: bool
  fieldName :: string
  replaceWithType :: string

definition replaceFieldsInType :: "string \<Rightarrow> RelevantField list \<Rightarrow> string" where
  "replaceFieldsInType typeName relevant =
     ''Omit<'' @ typeName @ '', ''
       @ join (map (\<lambda>f. [CHR 0x27] @ fieldName f @ [CHR 0x27]) relevant) '' | ''
       @ ''> & { ''
       @ join (map (\<lambda>f. fieldName f @ (if addOptionalSign f then ''?'' else []) @ '': ''
                            @ replaceWithType f) relevant) '', ''
       @ '' }''"

text \<open>
  The fields of a type that get a replacement: the \<^verbatim>\<open>map\<close> to an entry or
  \<^verbatim>\<open>null\<close>, then the \<^verbatim>\<open>filter\<close> that drops the nulls. The tests
  \<^verbatim>\<open>!config.mappers[n]\<close> and \<^verbatim>\<open>!nestedMapping[n]\<close> go by the truthiness of the reads.
\<close>

definition isNestedMapped :: "(string \<rightharpoonup> JSValue) \<Rightarrow> string \<Rightarrow> bool" where
  "isNestedMapped nestedMapping n =
     (case readValue nestedMapping n of None \<Rightarrow> False | Some x \<Rightarrow> truthy x)"

definition relevantField ::
  "Visitor \<Rightarrow> (string \<rightharpoonup> JSValue) \<Rightarrow> string \<times> GraphQLOutputType \<Rightarrow> RelevantField option" where
  "relevantField v nestedMapping fld =
     (case fld of (fName, fType) \<Rightarrow>
        (let baseType = getBaseType (typeMap v) fType;
             isUnion = isUnionType baseType
         in if \<not> isMappedType v (name baseType) \<and> \<not> isUnion
                 \<and> \<not> isNestedMapped nestedMapping (name baseType)
            then None
            else Some \<lparr> addOptionalSign = (\<not> avoidOptionals (config v) \<and> \<not> isNonNullType fType),
                        fieldName = fName,
                        replaceWithType =
                          wrapTypeWithModifiers (getTypeToUse v (name baseType)) fType \<rparr>))"

definition relevantFields ::
  "Visitor \<Rightarrow> (string \<rightharpoonup> JSValue) \<Rightarrow> (string \<times> GraphQLOutputType) list \<Rightarrow> RelevantField list" where
  "relevantFields v nestedMapping flds = List.map_filter (relevantField v nestedMapping) flds"

text \<open>
  One turn of the \<^verbatim>\<open>reduce\<close> callback for a type that is not a root type, in the four
  stages of the source. Each stage reads and writes \<^verbatim>\<open>prev[typeName]\<close> only, so the
  stages pass that one value on. \<open>precedenceEntry\<close> is the \<^verbatim>\<open>else if\<close> chain; it returns
  the value written (\<open>None\<close> is \<^verbatim>\<open>undefined\<close>, the \<^verbatim>\<open>typeIdentifier\<close> of an inherited
  member), \<^verbatim>\<open>shouldApplyOmit\<close>, and whether \<^verbatim>\<open>markMapperAsUsed\<close> ran.
\<close>

definition precedenceEntry ::
  "Visitor \<Rightarrow> (string \<Rightarrow> string) \<Rightarrow> string \<Rightarrow> string option \<times> bool \<times> bool" where
  "precedenceEntry v applyWrapper typeName =
     (let schemaType = typeNamed (typeMap v) typeName in
      if isEnumType schemaType \<and> hasEnumValues v typeName
        then (enumTypeIdentifier v typeName, False, False)
      else if isMappedType v typeName \<and> mapperTypeOf v typeName \<noteq> []
        then (Some (applyWrapper (mapperTypeOf v typeName)), False, True)
      else if hasDefaultMapper v \<and> \<not> hasPlaceholder (defaultMapperType v)
        then (Some (applyWrapper (defaultMapperType v)), False, False)
      else if isScalarName v typeName
        then (Some (applyWrapper (getScalar typeName)), False, False)
      else if isUnionType schemaType
        then (Some (join (map (getTypeToUse v) (getTypes schemaType)) '' | ''), False, False)
      else (Some (convertName v typeName), True, False))"

definition fieldOverride ::
  "Visitor \<Rightarrow> (string \<rightharpoonup> JSValue) \<Rightarrow> (string \<Rightarrow> string) \<Rightarrow> string \<Rightarrow> bool \<Rightarrow> string \<Rightarrow> string" where
  "fieldOverride v nestedMapping applyWrapper typeName shouldApplyOmit entry =
     (let schemaType = typeNamed (typeMap v) typeName in
      if (shouldApplyOmit \<and> entry \<noteq> ''any'' \<and> isObjectType schemaType)
           \<or> (isInterfaceType schemaType \<and> \<not> isMappedType v typeName)
      then (let relevant = relevantFields v nestedMapping (getFields schemaType) in
            if length relevant > 0
            then applyWrapper (replaceFieldsInType entry relevant)
            else applyWrapper entry)
      else entry)"

text \<open>
  The two placeholder steps, on an entry that is a string. On the entry \<^verbatim>\<open>undefined\<close>
  the first of them throws; \<open>resolvedEntry\<close> below has that case.
\<close>

definition mapperPlaceholder :: "Visitor \<Rightarrow> string \<Rightarrow> string \<Rightarrow> string" where
  "mapperPlaceholder v typeName entry =
     (if isMappedType v typeName \<and> hasPlaceholder entry
      then replacePlaceholder entry typeName else entry)"

definition defaultMapperPlaceholder ::
  "Visitor \<Rightarrow> (string \<Rightarrow> string) \<Rightarrow> (string \<Rightarrow> string) \<Rightarrow> string \<Rightarrow> string \<Rightarrow> string" where
  "defaultMapperPlaceholder v applyWrapper clearWrapper typeName entry =
     (if \<not> isMappedType v typeName \<and> hasDefaultMapper v \<and> hasPlaceholder (defaultMapperType v)
      then (let nm = clearWrapper (if isScalarName v typeName then getScalar typeName else entry);
                replaced = replacePlaceholder (defaultMapperType v) nm
            in if isUnionType (typeNamed (typeMap v) typeName) then replaced
               else applyWrapper (replacePlaceholder (defaultMapperType v) nm))
      else entry)"

text \<open>
  The value that the callback leaves in \<^verbatim>\<open>prev[typeName]\<close> for a type that is not a root
  type, or the exception it throws. The chain writes \<^verbatim>\<open>undefined\<close> only in the enum
  branch, for an enum whose name is a member of \<^verbatim>\<open>Object.prototype\<close>. The field override
  does not apply to an enum; the read \<^verbatim>\<open>config.mappers[typeName]\<close> is truthy for such a
  name as well, so the next step calls \<^verbatim>\<open>hasPlaceholder(undefined)\<close>, whose
  \<^verbatim>\<open>undefined.includes\<close> throws a \<^verbatim>\<open>TypeError\<close>.
\<close>

definition resolvedEntry ::
  "Visitor \<Rightarrow> (string \<rightharpoonup> JSValue) \<Rightarrow> (string \<Rightarrow> string) \<Rightarrow> (string \<Rightarrow> string) \<Rightarrow> string
     \<Rightarrow> error + string" where
  "resolvedEntry v nestedMapping applyWrapper clearWrapper typeName =
     (case precedenceEntry v applyWrapper typeName of
        (None, shouldApplyOmit, used) \<Rightarrow> Inl TypeError
      | (Some entry, shouldApplyOmit, used) \<Rightarrow>
          Inr (defaultMapperPlaceholder v applyWrapper clearWrapper typeName
                 (mapperPlaceholder v typeName
                    (fieldOverride v nestedMapping applyWrapper typeName shouldApplyOmit entry))))"

text \<open>
  The state of the \<^verbatim>\<open>reduce\<close>: the table \<^verbatim>\<open>prev\<close>, an object whose keys keep the order in
  which they were first written, and \<^verbatim>\<open>_usedMappers\<close>, which \<^verbatim>\<open>markMapperAsUsed\<close> changes.
  No key written to either starts with \<^verbatim>\<open>__\<close>. An exception ends the \<^verbatim>\<open>reduce\<close>.
\<close>

definition markMapperAsUsed :: "string \<Rightarrow> (string \<rightharpoonup> bool) \<Rightarrow> (string \<rightharpoonup> bool)" where
  "markMapperAsUsed n used = used(n \<mapsto> True)"

definition reducer ::
  "Visitor \<Rightarrow> (string \<rightharpoonup> JSValue) \<Rightarrow> (string \<Rightarrow> string) \<Rightarrow> (string \<Rightarrow> string)
     \<Rightarrow> (string \<times> string) list \<times> (string \<rightharpoonup> bool) \<Rightarrow> string
     \<Rightarrow> error + (string \<times> string) list \<times> (string \<rightharpoonup> bool)" where
  "reducer v nestedMapping applyWrapper clearWrapper acc typeName =
     (case acc of (prev, used) \<Rightarrow>
        if startsWith typeName ''__'' then Inr (prev, used)
        else if typeName \<in> set (rootTypeNames v)
          then Inr (AList.update typeName (applyWrapper (type (rootValueType (config v)))) prev,
                    used)
        else (case resolvedEntry v nestedMapping applyWrapper clearWrapper typeName of
                Inl e \<Rightarrow> Inl e
              | Inr entry \<Rightarrow>
                  Inr (AList.update typeName entry prev,
                       if snd (snd (precedenceEntry v applyWrapper typeName))
                       then markMapperAsUsed typeName used else used)))"

fun reduce :: "('b \<Rightarrow> 'a \<Rightarrow> error + 'b) \<Rightarrow> 'b \<Rightarrow> 'a list \<Rightarrow> error + 'b" where
  "reduce f acc [] = Inr acc"
| "reduce f acc (x # xs) = (case f acc x of Inl e \<Rightarrow> Inl e | Inr acc' \<Rightarrow> reduce f acc' xs)"

definition dependencyTable :: "nat \<Rightarrow> Visitor \<Rightarrow> (string \<rightharpoonup> JSValue) option" where
  "dependencyTable fuel v = nestedMappingLoop fuel v (map name (typeMap v)) Map.empty"

definition createResolversFields ::
  "nat \<Rightarrow> Visitor \<Rightarrow> (string \<Rightarrow> string) \<Rightarrow> (string \<Rightarrow> string) \<Rightarrow> (string \<rightharpoonup> bool)
     \<Rightarrow> (error + (string \<times> string) list \<times> (string \<rightharpoonup> bool)) option" where
  "createResolversFields fuel v applyWrapper clearWrapper used =
     (case dependencyTable fuel v of
        None \<Rightarrow> None
      | Some nestedMapping \<Rightarrow>
          Some (reduce (reducer v nestedMapping applyWrapper clearWrapper) ([], used)
                       (map name (typeMap v))))"

text \<open>
  The constructor builds both tables, \<^verbatim>\<open>_resolversTypes\<close> with the wrapper and
  \<^verbatim>\<open>_resolversParentTypes\<close> with the identity; an exception of either run leaves no
  visitor. The getter \<^verbatim>\<open>unusedMappers\<close> reads \<^verbatim>\<open>_usedMappers\<close>, a plain object,
  afterwards, by the truthiness of the read.
\<close>

record VisitorState =
  usedMappers :: "string \<rightharpoonup> bool"
  resolversTypes :: "(string \<times> string) list"
  resolversParentTypes :: "(string \<times> string) list"

definition construct :: "nat \<Rightarrow> Visitor \<Rightarrow> (error + VisitorState) option" where
  "construct fuel v =
     (case createResolversFields fuel v applyResolverTypeWrapper clearResolverTypeWrapper Map.empty of
        None \<Rightarrow> None
      | Some (Inl e) \<Rightarrow> Some (Inl e)
      | Some (Inr (rt, used1)) \<Rightarrow>
          (case createResolversFields fuel v (\<lambda>t. t) (\<lambda>t. t) used1 of
             None \<Rightarrow> None
           | Some (Inl e) \<Rightarrow> Some (Inl e)
           | Some (Inr (rpt, used2)) \<Rightarrow>
               Some (Inr \<lparr> usedMappers = used2, resolversTypes = rt,
                          resolversParentTypes = rpt \<rparr>)))"

definition isUsedMapper :: "(string \<rightharpoonup> bool) \<Rightarrow> string \<Rightarrow> bool" where
  "isUsedMapper used n =
     (case getProperty used n of Own b \<Rightarrow> b | Inherited \<Rightarrow> True | Absent \<Rightarrow> False)"

definition unusedMappers :: "Visitor \<Rightarrow> VisitorState \<Rightarrow> string list" where
  "unusedMappers v st =
     filter (\<lambda>n. \<not> isUsedMapper (usedMappers st) n) (map fst (mappers (config v)))"

section \<open>Measures for the depth of the analysis\<close>

text \<open>
  The names of the types of the type map that have fields, and the depth of nesting
  that a call of \<open>shouldMapType\<close> on a type can need, given the names that are in
  \<^verbatim>\<open>duringCheck\<close> already.
\<close>

definition fieldedNames :: "GraphQLNamedType list \<Rightarrow> string set" where
  "fieldedNames tm = name ` {t \<in> set tm. isObjectType t \<or> isInterfaceType t}"

definition depthNeeded :: "GraphQLNamedType list \<Rightarrow> GraphQLNamedType \<Rightarrow> string list \<Rightarrow> nat" where
  "depthNeeded tm t dc =
     (if isObjectType t \<or> isInterfaceType t
      then 2 + 2 * card (fieldedNames tm - (set dc \<union> {name t}))
             + (if name t \<in> set dc then 0 else 1)
      else 1)"

section \<open>Reading the finished tables\<close>

text \<open>
  The own entry of a name in \<^verbatim>\<open>nestedMapping\<close>, in \<^verbatim>\<open>_resolversTypes\<close>, in
  \<^verbatim>\<open>_resolversParentTypes\<close> and in \<^verbatim>\<open>_usedMappers\<close> once the constructor has returned,
  the keys of the tables, and what \<^verbatim>\<open>unusedMappers\<close> then gives; \<open>None\<close> where the name
  has no own entry, and where the constructor threw and left no table. \<open>thrown\<close> is
  the exception of a constructor that threw.
\<close>

definition dependencyEntry :: "nat \<Rightarrow> Visitor \<Rightarrow> string \<Rightarrow> JSValue option" where
  "dependencyEntry fuel v typeName =
     (case dependencyTable fuel v of None \<Rightarrow> None | Some nestedMapping \<Rightarrow> nestedMapping typeName)"

definition constructed :: "nat \<Rightarrow> Visitor \<Rightarrow> VisitorState option" where
  "constructed fuel v =
     (case construct fuel v of None \<Rightarrow> None | Some (Inl e) \<Rightarrow> None | Some (Inr st) \<Rightarrow> Some st)"

definition thrown :: "nat \<Rightarrow> Visitor \<Rightarrow> error option" where
  "thrown fuel v =
     (case construct fuel v of None \<Rightarrow> None | Some (Inl e) \<Rightarrow> Some e | Some (Inr st) \<Rightarrow> None)"

definition resolversTypesEntry :: "nat \<Rightarrow> Visitor \<Rightarrow> string \<Rightarrow> string option" where
  "resolversTypesEntry fuel v typeName =
     (case constructed fuel v of None \<Rightarrow> None | Some st \<Rightarrow> map_of (resolversTypes st) typeName)"

definition resolversParentTypesEntry :: "nat \<Rightarrow> Visitor \<Rightarrow> string \<Rightarrow> string option" where
  "resolversParentTypesEntry fuel v typeName =
     (case constructed fuel v of
        None \<Rightarrow> None | Some st \<Rightarrow> map_of (resolversParentTypes st) typeName)"

definition usedMapperEntry :: "nat \<Rightarrow> Visitor \<Rightarrow> string \<Rightarrow> bool option" where
  "usedMapperEntry fuel v typeName =
     (case constructed fuel v of None \<Rightarrow> None | Some st \<Rightarrow> usedMappers st typeName)"

definition resolversTypesKeys :: "nat \<Rightarrow> Visitor \<Rightarrow> string list option" where
  "resolversTypesKeys fuel v =
     (case constructed fuel v of None \<Rightarrow> None | Some st \<Rightarrow> Some (map fst (resolversTypes st)))"

definition resolversParentTypesKeys :: "nat \<Rightarrow> Visitor \<Rightarrow> string list option" where
  "resolversParentTypesKeys fuel v =
     (case constructed fuel v of
        None \<Rightarrow> None | Some st \<Rightarrow> Some (map fst (resolversParentTypes st)))"

definition unusedMappersAfter :: "nat \<Rightarrow> Visitor \<Rightarrow> string list option" where
  "unusedMappersAfter fuel v =
     (case constructed fuel v of None \<Rightarrow> None | Some st \<Rightarrow> Some (unusedMappers v st))"

text \<open>
  What one turn of the \<^verbatim>\<open>reduce\<close> callback writes for a type name, and whether it marks
  the mapper of that name as used; the turn reads nothing of the table built so far.
\<close>

definition tableEntry ::
  "Visitor \<Rightarrow> (string \<rightharpoonup> JSValue) \<Rightarrow> (string \<Rightarrow> string) \<Rightarrow> (string \<Rightarrow> string) \<Rightarrow> string
     \<Rightarrow> error + string" where
  "tableEntry v nestedMapping applyWrapper clearWrapper typeName =
     (if typeName \<in> set (rootTypeNames v)
      then Inr (applyWrapper (type (rootValueType (config v))))
      else resolvedEntry v nestedMapping applyWrapper clearWrapper typeName)"

definition marksMapper :: "Visitor \<Rightarrow> string \<Rightarrow> bool" where
  "marksMapper v typeName =
     (typeName \<notin> set (rootTypeNames v)
      \<and> \<not> (isEnumType (typeNamed (typeMap v) typeName) \<and> hasEnumValues v typeName)
      \<and> isMappedType v typeName \<and> mapperTypeOf v typeName \<noteq> [])"

text \<open>
  A type map none of whose names is the name of a member of \<^verbatim>\<open>Object.prototype\<close>.
\<close>

definition plainTypeNames :: "Visitor \<Rightarrow> bool" where
  "plainTypeNames v =
     list_all (\<lambda>n. n \<notin> set objectPrototypeMembers) (map name (typeMap v))"

section \<open>Example schemas\<close>

text \<open>
  A mapper string without \<^verbatim>\<open>#\<close> parses to a mapper that is not external; the
  configuration without any option set; two object types that refer to each other; and
  a small schema with a root type, a mapped type, a union, an enum and a scalar, under
  a name converter that puts the prefix \<^verbatim>\<open>I\<close>, or under the identity.
\<close>

definition literalMapper :: "string \<Rightarrow> ParsedMapper" where
  "literalMapper s = \<lparr> isExternal = False, type = s, source = None \<rparr>"

definition plainConfig :: ParsedResolversConfig where
  "plainConfig =
     \<lparr> contextType = literalMapper ''any'', rootValueType = literalMapper ''{}'',
       mappers = [], defaultMapper = None, avoidOptionals = False,
       addUnderscoreToArgsType = False, enumValues = [],
       scalars = [(''String'', ''string'')] \<rparr>"

definition blogTypeMap :: "GraphQLNamedType list" where
  "blogTypeMap =
     [GraphQLObjectType ''Query'' [(''me'', GraphQLNamed ''User'')],
      GraphQLObjectType ''User''
        [(''id'', GraphQLNonNull (GraphQLNamed ''String'')), (''name'', GraphQLNamed ''String'')],
      GraphQLObjectType ''Post''
        [(''author'', GraphQLNonNull (GraphQLNamed ''User'')),
         (''editor'', GraphQLNamed ''User''),
         (''title'', GraphQLNamed ''String'')],
      GraphQLUnionType ''SearchResult'' [''User'', ''Post''],
      GraphQLEnumType ''Color'',
      GraphQLScalarType ''String'',
      GraphQLObjectType ''__Schema'' []]"

definition blogVisitor :: Visitor where
  "blogVisitor =
     \<lparr> config = plainConfig
         \<lparr> mappers := [(''User'', literalMapper ''Partial<{T}>''),
                       (''Ghost'', literalMapper ''GhostModel'')],
           defaultMapper := Some (literalMapper ''any'') \<rparr>,
       typeMap = blogTypeMap,
       rootTypeNames = [''Query''],
       convertName = (\<lambda>s. ''I'' @ s) \<rparr>"

definition partialVisitor :: Visitor where
  "partialVisitor =
     \<lparr> config = plainConfig \<lparr> defaultMapper := Some (literalMapper ''Partial<{T}>'') \<rparr>,
       typeMap = blogTypeMap,
       rootTypeNames = [''Query''],
       convertName = (\<lambda>s. ''I'' @ s) \<rparr>"



definition unionVisitor :: Visitor where
  "unionVisitor =
     \<lparr> config = plainConfig,
       typeMap = blogTypeMap,
       rootTypeNames = [''Query''],
       convertName = (\<lambda>s. s) \<rparr>"

text \<open>
  Schemas and configurations with names of members of \<^verbatim>\<open>Object.prototype\<close>: a query type
  with a field of an enum named \<^verbatim>\<open>constructor\<close>; an object type named \<^verbatim>\<open>constructor\<close>
  and a type with a field of it; mappers registered under \<^verbatim>\<open>toString\<close> and \<^verbatim>\<open>Ghost\<close>,
  neither the name of a type. And an interface under the two-line default mapper
  \<^verbatim>\<open>a\nb\<close>.
\<close>

definition enumConstructorVisitor :: Visitor where
  "enumConstructorVisitor =
     \<lparr> config = plainConfig,
       typeMap = [GraphQLObjectType ''Query'' [(''c'', GraphQLNamed ''constructor'')],
                  GraphQLEnumType ''constructor''],
       rootTypeNames = [''Query''],
       convertName = (\<lambda>s. s) \<rparr>"

definition holderVisitor :: Visitor where
  "holderVisitor =
     \<lparr> config = plainConfig,
       typeMap = [GraphQLObjectType ''Holder'' [(''c'', GraphQLNamed ''constructor'')],
                  GraphQLObjectType ''constructor'' [(''id'', GraphQLNamed ''String'')],
                  GraphQLScalarType ''String''],
       rootTypeNames = [],
       convertName = (\<lambda>s. s) \<rparr>"

definition toStringVisitor :: Visitor where
  "toStringVisitor =
     \<lparr> config = plainConfig
         \<lparr> mappers := [(''toString'', literalMapper ''StringModel''),
                       (''Ghost'', literalMapper ''GhostModel'')] \<rparr>,
       typeMap = blogTypeMap,
       rootTypeNames = [''Query''],
       convertName = (\<lambda>s. s) \<rparr>"

definition multilineVisitor :: Visitor where
  "multilineVisitor =
     \<lparr> config = plainConfig
         \<lparr> defaultMapper := Some (literalMapper [CHR ''a'', CHR 0x0A, CHR ''b'']) \<rparr>,
       typeMap = [GraphQLInterfaceType ''Node'' [(''id'', GraphQLNamed ''String'')],
                  GraphQLScalarType ''String''],
       rootTypeNames = [],
       convertName = (\<lambda>s. s) \<rparr>"

section \<open>The turns that throw nothing\<close>

text \<open>
  For a type name that does not name a member of \<^verbatim>\<open>Object.prototype\<close> a turn of the
  \<^verbatim>\<open>reduce\<close> callback throws nothing; \<open>plainReducer\<close> is the turn then, with
  \<open>plainEntry\<close> the entry it writes.
\<close>

definition plainEntry ::
  "Visitor \<Rightarrow> (string \<rightharpoonup> JSValue) \<Rightarrow> (string \<Rightarrow> string) \<Rightarrow> (string \<Rightarrow> string) \<Rightarrow> string
     \<Rightarrow> string" where
  "plainEntry v nestedMapping applyWrapper clearWrapper typeName =
     (case tableEntry v nestedMapping applyWrapper clearWrapper typeName of
        Inr entry \<Rightarrow> entry
      | Inl e \<Rightarrow> [])"

definition plainReducer ::
  "Visitor \<Rightarrow> (string \<rightharpoonup> JSValue) \<Rightarrow> (string \<Rightarrow> string) \<Rightarrow> (string \<Rightarrow> string)
     \<Rightarrow> (string \<times> string) list \<times> (string \<rightharpoonup> bool) \<Rightarrow> string
     \<Rightarrow> (string \<times> string) list \<times> (string \<rightharpoonup> bool)" where
  "plainReducer v nestedMapping applyWrapper clearWrapper acc typeName =
     (case acc of (prev, used) \<Rightarrow>
        (if startsWith typeName ''__'' then prev
         else AList.update typeName
                (plainEntry v nestedMapping applyWrapper clearWrapper typeName) prev,
         if \<not> startsWith typeName ''__'' \<and> marksMapper v typeName
         then used(typeName \<mapsto> True) else used))"

section \<open>Properties of the string primitives\<close>

lemma startsWith_append: "startsWith (p @ r) p"
  by (induction p) auto

lemma startsWith_iff_take: "startsWith s p \<longleftrightarrow> take (length p) s = p"
  by (induction s p rule: startsWith.induct) auto

lemma noLineTerminator_append [simp]:
  "noLineTerminator (a @ b) \<longleftrightarrow> noLineTerminator a \<and> noLineTerminator b"
  by (simp add: noLineTerminator_def)

lemma noLineTerminator_Nil [simp]: "noLineTerminator []"
  by (simp add: noLineTerminator_def)

lemma noLineTerminator_Cons [simp]:
  "noLineTerminator (c # s) \<longleftrightarrow> \<not> isLineTerminator c \<and> noLineTerminator s"
  by (simp add: noLineTerminator_def)

lemma matchTail_wrapped:
  assumes "noLineTerminator x"
  shows "matchTail lit (lit @ x @ ''>'') = Some x"
  using assms by (simp add: matchTail_def startsWith_append)

lemma replaceTail_wrapped:
  assumes "noLineTerminator x"
  shows "replaceTail lit (lit @ x @ ''>'') = x"
proof (cases "lit @ x @ ''>''")
  case Nil
  then show ?thesis by simp
next
  case (Cons c cs)
  have "replaceTail lit (c # cs) = x"
    using matchTail_wrapped[OF assms, of lit] Cons by simp
  then show ?thesis using Cons by simp
qed

lemma matchTail_subset: "matchTail lit s = Some cap \<Longrightarrow> set cap \<subseteq> set s"
  by (auto simp: matchTail_def Let_def split: if_splits dest!: in_set_butlastD in_set_dropD)

lemma replaceTail_subset: "set (replaceTail lit s) \<subseteq> set s"
proof (induction s)
  case Nil
  then show ?case by simp
next
  case (Cons c cs)
  show ?case
  proof (cases "matchTail lit (c # cs)")
    case None
    then show ?thesis using Cons by auto
  next
    case (Some cap)
    then show ?thesis using matchTail_subset[OF Some] by simp
  qed
qed

lemma noLineTerminator_replaceTail:
  "noLineTerminator s \<Longrightarrow> noLineTerminator (replaceTail lit s)"
  using replaceTail_subset[of lit s] by (auto simp: noLineTerminator_def list_all_iff)

lemma noLineTerminator_clearResolverTypeWrapper:
  "noLineTerminator s \<Longrightarrow> noLineTerminator (clearResolverTypeWrapper s)"
  by (simp add: clearResolverTypeWrapper_def noLineTerminator_replaceTail)

lemma noLineTerminator_clearMaybe:
  "noLineTerminator s \<Longrightarrow> noLineTerminator (clearMaybe s)"
  by (simp add: clearMaybe_def noLineTerminator_replaceTail)

lemma clearResolverTypeWrapper_wrapped:
  "noLineTerminator x \<Longrightarrow> clearResolverTypeWrapper (''ResolverTypeWrapper<'' @ x @ ''>'') = x"
  unfolding clearResolverTypeWrapper_def
  using replaceTail_wrapped[of x "''ResolverTypeWrapper<''"]
    startsWith_append[of "''ResolverTypeWrapper<''" "x @ ''>''"]
  by simp

lemma clearMaybe_applyMaybe:
  "noLineTerminator x \<Longrightarrow> clearMaybe (applyMaybe x) = x"
  unfolding clearMaybe_def applyMaybe_def
  using replaceTail_wrapped[of x "''Maybe<''"] startsWith_append[of "''Maybe<''" "x @ ''>''"]
  by simp

section \<open>The resolver-type wrapper\<close>

text \<open>
  On a string that holds no line terminator, wrapping twice gives what wrapping once
  gives: the wrapper found at the front is stripped before the new one is put on.
\<close>

lemma applyResolverTypeWrapper_twice:
  assumes "noLineTerminator s"
  shows "applyResolverTypeWrapper (applyResolverTypeWrapper s) = applyResolverTypeWrapper s"
  using clearResolverTypeWrapper_wrapped[OF noLineTerminator_clearResolverTypeWrapper[OF assms]]
  by (simp add: applyResolverTypeWrapper_def)

section \<open>The field type wrapper\<close>

lemma noLineTerminator_applyMaybe:
  "noLineTerminator (applyMaybe s) = noLineTerminator s"
  by (simp add: applyMaybe_def isLineTerminator_def)

lemma noLineTerminator_wrapTypeWithModifiers:
  "noLineTerminator baseType \<Longrightarrow> noLineTerminator (wrapTypeWithModifiers baseType t)"
proof (induction t)
  case (GraphQLNamed n)
  then show ?case by (simp add: noLineTerminator_applyMaybe)
next
  case (GraphQLList t)
  then show ?case by (simp add: noLineTerminator_applyMaybe isLineTerminator_def)
next
  case (GraphQLNonNull t)
  then show ?case by (simp add: noLineTerminator_clearMaybe)
qed

lemma wrapTypeWithModifiers_nullable:
  "\<not> isNonNullType t \<Longrightarrow> \<exists>s. wrapTypeWithModifiers baseType t = applyMaybe s"
  by (cases t) auto

lemma wrapTypeWithModifiers_nonNull:
  assumes "noLineTerminator baseType" and "\<not> isNonNullType t"
  shows "applyMaybe (wrapTypeWithModifiers baseType (GraphQLNonNull t))
           = wrapTypeWithModifiers baseType t"
proof -
  obtain s where s: "wrapTypeWithModifiers baseType t = applyMaybe s"
    using wrapTypeWithModifiers_nullable[OF assms(2)] by blast
  have "noLineTerminator (applyMaybe s)"
    using noLineTerminator_wrapTypeWithModifiers[OF assms(1), of t] s by simp
  then have "clearMaybe (applyMaybe s) = s"
    by (simp add: clearMaybe_applyMaybe noLineTerminator_applyMaybe)
  then show ?thesis using s by simp
qed

text \<open>
  Claim C8. Around a base expression that holds no line terminator (the lookup
  \<^verbatim>\<open>ResolversTypes['Name']\<close> is one): a named leaf gets one \<^verbatim>\<open>Maybe\<close>; a list is a
  \<^verbatim>\<open>Maybe\<close> around the \<^verbatim>\<open>Array\<close> of the wrapped item type; a non-null type is the wrap of
  the type below it without that wrap's outermost \<^verbatim>\<open>Maybe\<close>, so that below a non-null
  list the item keeps its own marker; and every type that is not non-null comes out
  with an explicit \<^verbatim>\<open>Maybe\<close> around it.
\<close>

theorem wrapTypeWithModifiers_markers:
  assumes "noLineTerminator baseType"
  shows "wrapTypeWithModifiers baseType (GraphQLNamed n) = applyMaybe baseType
     \<and> wrapTypeWithModifiers baseType (GraphQLList t)
         = applyMaybe (''Array<'' @ wrapTypeWithModifiers baseType t @ ''>'')
     \<and> wrapTypeWithModifiers baseType (GraphQLNonNull t)
         = clearMaybe (wrapTypeWithModifiers baseType t)
     \<and> (\<not> isNonNullType t \<longrightarrow>
          wrapTypeWithModifiers baseType t
            = applyMaybe (wrapTypeWithModifiers baseType (GraphQLNonNull t)))
     \<and> wrapTypeWithModifiers baseType (GraphQLNonNull (GraphQLList t))
         = ''Array<'' @ wrapTypeWithModifiers baseType t @ ''>''
     \<and> (\<not> isNonNullType t \<longrightarrow> (\<exists>s. wrapTypeWithModifiers baseType t = applyMaybe s))"
proof -
  have nn: "\<not> isNonNullType t \<longrightarrow>
      wrapTypeWithModifiers baseType t
        = applyMaybe (wrapTypeWithModifiers baseType (GraphQLNonNull t))"
    using wrapTypeWithModifiers_nonNull[OF assms, of t] by simp
  have "noLineTerminator (''Array<'' @ wrapTypeWithModifiers baseType t @ ''>'')"
    using noLineTerminator_wrapTypeWithModifiers[OF assms, of t]
    by (simp add: isLineTerminator_def)
  then have nl: "wrapTypeWithModifiers baseType (GraphQLNonNull (GraphQLList t))
      = ''Array<'' @ wrapTypeWithModifiers baseType t @ ''>''"
    by (simp add: clearMaybe_applyMaybe)
  show ?thesis
    using nn nl wrapTypeWithModifiers_nullable[of t baseType] by simp
qed

theorem wrapTypeWithModifiers_markers_witness:
  "noLineTerminator ''ResolversTypes['User']''
   \<and> wrapTypeWithModifiers ''ResolversTypes['User']'' (GraphQLNamed ''User'')
       = ''Maybe<ResolversTypes['User']>''
   \<and> wrapTypeWithModifiers ''ResolversTypes['User']'' (GraphQLList (GraphQLNamed ''User''))
       = ''Maybe<Array<Maybe<ResolversTypes['User']>>>''
   \<and> wrapTypeWithModifiers ''ResolversTypes['User']''
         (GraphQLNonNull (GraphQLList (GraphQLNamed ''User'')))
       = ''Array<Maybe<ResolversTypes['User']>>''
   \<and> wrapTypeWithModifiers ''ResolversTypes['User']''
         (GraphQLList (GraphQLNonNull (GraphQLNamed ''User'')))
       = ''Maybe<Array<ResolversTypes['User']>>''"
  using wrapTypeWithModifiers_markers[of "''ResolversTypes['User']''" "''User''"
          "GraphQLNamed ''User''"]
  by (simp add: isLineTerminator_def applyMaybe_def clearMaybe_def matchTail_def)

section \<open>Termination of the dependency analysis\<close>

lemma name_typeNamed [simp]: "name (typeNamed tm n) = n"
  by (induction tm) auto

lemma typeNamed_fielded:
  "isObjectType (typeNamed tm n) \<or> isInterfaceType (typeNamed tm n) \<Longrightarrow> n \<in> fieldedNames tm"
proof (induction tm)
  case Nil
  then show ?case by simp
next
  case (Cons t ts)
  then show ?case by (auto simp: fieldedNames_def split: if_splits)
qed

lemma finite_fieldedNames [simp]: "finite (fieldedNames tm)"
  by (simp add: fieldedNames_def)

lemma card_fieldedNames: "card (fieldedNames tm) \<le> length tm"
proof -
  have "card (fieldedNames tm) \<le> card {t \<in> set tm. isObjectType t \<or> isInterfaceType t}"
    unfolding fieldedNames_def by (rule card_image_le) simp
  also have "\<dots> \<le> card (set tm)" by (rule card_mono) auto
  also have "\<dots> \<le> length tm" by (rule card_length)
  finally show ?thesis .
qed

lemma depthNeeded_bound: "depthNeeded tm t dc \<le> 2 * length tm + 3"
proof -
  have "card (fieldedNames tm - (set dc \<union> {name t})) \<le> card (fieldedNames tm)"
    by (rule card_mono) auto
  then show ?thesis using card_fieldedNames[of tm] by (simp add: depthNeeded_def)
qed

lemma some_st_total:
  assumes "\<And>x s. x \<in> set xs \<Longrightarrow> I s \<Longrightarrow> \<exists>b s'. f x s = Some (b, s') \<and> I s'"
    and "I s"
  shows "\<exists>b s'. some_st f xs s = Some (b, s') \<and> I s'"
  using assms
proof (induction xs arbitrary: s)
  case Nil
  then show ?case by auto
next
  case (Cons x xs)
  obtain b s1 where fx: "f x s = Some (b, s1)" "I s1"
    using Cons.prems(1)[of x s] Cons.prems(2) by auto
  show ?case
  proof (cases b)
    case True
    then show ?thesis using fx by auto
  next
    case False
    have "\<exists>b s'. some_st f xs s1 = Some (b, s') \<and> I s'"
      using Cons.IH[of s1] Cons.prems(1) fx(2) by simp
    then show ?thesis using fx False by auto
  qed
qed

lemma depthNeeded_field:
  assumes T: "isObjectType t \<or> isInterfaceType t"
    and le: "depthNeeded tm t dc \<le> Suc n"
    and F: "baseTypeName ft \<notin> set dc"
    and sub: "set dc \<subseteq> set s"
  shows "depthNeeded tm (getBaseType tm ft) (s @ [name t]) \<le> n"
proof (cases "isObjectType (getBaseType tm ft) \<or> isInterfaceType (getBaseType tm ft)")
  case False
  then show ?thesis using T le by (simp add: depthNeeded_def)
next
  case True
  let ?F = "baseTypeName ft"
  let ?O = "fieldedNames tm"
  have FO: "?F \<in> ?O" using True typeNamed_fielded by (simp add: getBaseType_def)
  have nF: "name (getBaseType tm ft) = ?F" by (simp add: getBaseType_def)
  show ?thesis
  proof (cases "?F = name t")
    case True
    have "card (?O - (set (s @ [name t]) \<union> {?F})) \<le> card (?O - (set dc \<union> {name t}))"
      using sub True by (intro card_mono) auto
    then show ?thesis using T le F True \<open>isObjectType (getBaseType tm ft) \<or> isInterfaceType (getBaseType tm ft)\<close> nF
      by (simp add: depthNeeded_def)
  next
    case False
    have "?O - (set (s @ [name t]) \<union> {?F}) \<subset> ?O - (set dc \<union> {name t})"
      using sub FO F False by auto
    then have "card (?O - (set (s @ [name t]) \<union> {?F})) < card (?O - (set dc \<union> {name t}))"
      by (intro psubset_card_mono) auto
    then show ?thesis using T le \<open>isObjectType (getBaseType tm ft) \<or> isInterfaceType (getBaseType tm ft)\<close> nF
      by (simp add: depthNeeded_def)
  qed
qed

lemma shouldMapType_enough:
  "depthNeeded (typeMap v) t dc \<le> n \<Longrightarrow>
     \<exists>x dc'. shouldMapType n v t cb dc = Some (x, dc') \<and> set dc \<subseteq> set dc'"
proof (induction n arbitrary: t dc)
  case 0
  then show ?case by (simp add: depthNeeded_def split: if_splits)
next
  case (Suc n)
  show ?case
  proof (cases "readValue cb (name t) = None
      \<and> \<not> (startsWith (name t) ''__'' \<or> isScalarName v (name t))
      \<and> \<not> isMappedType v (name t) \<and> (isObjectType t \<or> isInterfaceType t)")
    case False
    then show ?thesis by (auto split: option.splits)
  next
    case True
    let ?f = "\<lambda>(fieldName, ftype) dc'.
                 let fieldType = getBaseType (typeMap v) ftype in
                 (case readValue cb (name fieldType) of
                    Some x \<Rightarrow> Some (truthy x, dc')
                  | None \<Rightarrow>
                      if isMappedType v (name t) then Some (True, dc')
                      else (case shouldMapType n v fieldType cb (dc' @ [name t]) of
                              None \<Rightarrow> None
                            | Some (innerResult, dc'') \<Rightarrow> Some (truthy innerResult, dc'')))"
    let ?xs = "filter (\<lambda>(fieldName, ftype). name (getBaseType (typeMap v) ftype) \<notin> set dc)
                 (getFields t)"
    have step: "\<exists>b s'. ?f x s = Some (b, s') \<and> set dc \<subseteq> set s'"
      if x: "x \<in> set ?xs" and s: "set dc \<subseteq> set s" for x s
    proof -
      obtain fn ft where xeq: "x = (fn, ft)" by (cases x)
      have F: "baseTypeName ft \<notin> set dc" using x xeq by (simp add: getBaseType_def)
      show ?thesis
      proof (cases "readValue cb (name (getBaseType (typeMap v) ft))")
        case (Some y)
        then show ?thesis using xeq s by simp
      next
        case None
        have "depthNeeded (typeMap v) (getBaseType (typeMap v) ft) (s @ [name t]) \<le> n"
          using depthNeeded_field[OF _ Suc.prems F s] True by simp
        from Suc.IH[OF this] obtain y dc' where
          "shouldMapType n v (getBaseType (typeMap v) ft) cb (s @ [name t]) = Some (y, dc')"
          "set (s @ [name t]) \<subseteq> set dc'" by blast
        then show ?thesis using xeq None True s by auto
      qed
    qed
    have "\<exists>b s'. some_st ?f ?xs dc = Some (b, s') \<and> set dc \<subseteq> set s'"
      by (rule some_st_total[where I = "\<lambda>s. set dc \<subseteq> set s"]) (use step in auto)
    then obtain b s' where "some_st ?f ?xs dc = Some (b, s')" "set dc \<subseteq> set s'" by blast
    then show ?thesis using True by simp
  qed
qed

lemma shouldMapType_returns:
  assumes "2 * length (typeMap v) + 3 \<le> fuel"
  shows "\<exists>x dc'. shouldMapType fuel v t cb dc = Some (x, dc')"
  using shouldMapType_enough[of v t dc fuel cb] depthNeeded_bound[of "typeMap v" t dc] assms
  by (meson le_trans)

lemma nestedMappingLoop_total:
  assumes "2 * length (typeMap v) + 3 \<le> fuel"
  shows "\<exists>nm'. nestedMappingLoop fuel v names nm = Some nm'"
proof (induction names arbitrary: nm)
  case Nil
  then show ?case by simp
next
  case (Cons n names)
  obtain x dc' where r: "shouldMapType fuel v (typeNamed (typeMap v) n) nm [] = Some (x, dc')"
    using shouldMapType_returns[OF assms] by blast
  obtain nm' where "nestedMappingLoop fuel v names (setProperty nm n x) = Some nm'"
    using Cons.IH[of "setProperty nm n x"] by blast
  then show ?case using r by auto
qed

lemma dependencyTable_total:
  assumes "2 * length (typeMap v) + 3 \<le> fuel"
  shows "\<exists>nm. dependencyTable fuel v = Some nm"
  using nestedMappingLoop_total[OF assms, of "map name (typeMap v)" Map.empty]
  by (simp add: dependencyTable_def)

text \<open>
  A field whose base type is in \<^verbatim>\<open>duringCheck\<close> when the call starts is skipped: the
  call gives what it gives on the type without those fields.
\<close>

lemma shouldMapType_drops_in_progress:
  "shouldMapType fuel v (GraphQLObjectType n fs) cb dc
     = shouldMapType fuel v
         (GraphQLObjectType n (filter (\<lambda>(f, ft). baseTypeName ft \<notin> set dc) fs)) cb dc"
  by (cases fuel) (simp_all add: getBaseType_def Let_def cong: option.case_cong)

lemma shouldMapType_drops_in_progress_interface:
  "shouldMapType fuel v (GraphQLInterfaceType n fs) cb dc
     = shouldMapType fuel v
         (GraphQLInterfaceType n (filter (\<lambda>(f, ft). baseTypeName ft \<notin> set dc) fs)) cb dc"
  by (cases fuel) (simp_all add: getBaseType_def Let_def cong: option.case_cong)

text \<open>
  For a type whose name is not the name of a member of \<^verbatim>\<open>Object.prototype\<close>, and a
  table that holds booleans only, the call returns a boolean; so on a type map of such
  names \<^verbatim>\<open>nestedMapping\<close> gets a boolean for every type name.
\<close>

lemma shouldMapType_boolean:
  assumes "name t \<notin> set objectPrototypeMembers"
    and "\<forall>k. cb k \<noteq> Some JSInheritedMember"
    and "shouldMapType fuel v t cb dc = Some (x, dc')"
  shows "\<exists>b. x = JSBoolean b"
proof (cases fuel)
  case 0
  then show ?thesis using assms(3) by simp
next
  case (Suc k)
  show ?thesis
  proof (cases "cb (name t)")
    case None
    then have "readValue cb (name t) = None"
      using assms(1) by (simp add: readValue_def getProperty_def)
    then show ?thesis
      using assms(3) unfolding Suc by (auto split: if_splits option.splits)
  next
    case (Some y)
    then have "readValue cb (name t) = Some y"
      by (simp add: readValue_def getProperty_def)
    then have "x = y" using assms(3) unfolding Suc by simp
    then show ?thesis using Some assms(2) by (cases y) auto
  qed
qed

lemma nestedMappingLoop_boolean:
  assumes "\<forall>n \<in> set names. n \<notin> set objectPrototypeMembers"
    and "\<forall>k. nm k \<noteq> Some JSInheritedMember"
    and "nestedMappingLoop fuel v names nm = Some nm'"
  shows "\<forall>k. nm' k \<noteq> Some JSInheritedMember"
  using assms
proof (induction names arbitrary: nm)
  case Nil
  then show ?case by simp
next
  case (Cons n names)
  obtain x dc where s: "shouldMapType fuel v (typeNamed (typeMap v) n) nm [] = Some (x, dc)"
    using Cons.prems(3) by (cases "shouldMapType fuel v (typeNamed (typeMap v) n) nm []") auto
  have "name (typeNamed (typeMap v) n) \<notin> set objectPrototypeMembers"
    using Cons.prems(1) by simp
  then obtain b where b: "x = JSBoolean b"
    using shouldMapType_boolean[OF _ Cons.prems(2) s] by blast
  have inv: "\<forall>k. setProperty nm n x k \<noteq> Some JSInheritedMember"
    using Cons.prems(2) b by (simp add: setProperty_def)
  have "nestedMappingLoop fuel v names (setProperty nm n x) = Some nm'"
    using Cons.prems(3) s by simp
  then show ?case using Cons.IH[OF _ inv] Cons.prems(1) by simp
qed

lemma nestedMappingLoop_dom:
  assumes "\<forall>n \<in> set names. n \<notin> set objectPrototypeMembers"
    and "nestedMappingLoop fuel v names nm = Some nm'"
  shows "dom nm' = dom nm \<union> set names"
  using assms
proof (induction names arbitrary: nm)
  case Nil
  then show ?case by simp
next
  case (Cons n names)
  obtain x dc where s: "shouldMapType fuel v (typeNamed (typeMap v) n) nm [] = Some (x, dc)"
    using Cons.prems(2) by (cases "shouldMapType fuel v (typeNamed (typeMap v) n) nm []") auto
  have "n \<noteq> ''__proto__''"
    using Cons.prems(1) by (auto simp: objectPrototypeMembers_def)
  then have d: "dom (setProperty nm n x) = insert n (dom nm)"
    by (simp add: setProperty_def)
  have "nestedMappingLoop fuel v names (setProperty nm n x) = Some nm'"
    using Cons.prems(2) s by simp
  then have "dom nm' = dom (setProperty nm n x) \<union> set names"
    using Cons.IH Cons.prems(1) by simp
  then show ?case using d by simp
qed

lemma dependencyTable_boolean:
  assumes "2 * length (typeMap v) + 3 \<le> fuel" and "plainTypeNames v"
    and "T \<in> set (map name (typeMap v))"
  shows "\<exists>b. dependencyEntry fuel v T = Some (JSBoolean b)"
proof -
  obtain nm where nm: "dependencyTable fuel v = Some nm"
    using dependencyTable_total[OF assms(1)] by blast
  have plain: "\<forall>n \<in> set (map name (typeMap v)). n \<notin> set objectPrototypeMembers"
    using assms(2) by (auto simp: plainTypeNames_def list_all_iff)
  have l: "nestedMappingLoop fuel v (map name (typeMap v)) Map.empty = Some nm"
    using nm by (simp add: dependencyTable_def)
  have "dom nm = set (map name (typeMap v))"
    using nestedMappingLoop_dom[OF plain l] by simp
  then obtain x where x: "nm T = Some x" using assms(3) by auto
  have "\<forall>k. nm k \<noteq> Some JSInheritedMember"
    using nestedMappingLoop_boolean[OF plain _ l] by simp
  then obtain b where "x = JSBoolean b" using x by (cases x) auto
  then show ?thesis using nm x by (simp add: dependencyEntry_def)
qed

section \<open>The reduce over the type names\<close>

lemma getProperty_plain:
  "n \<notin> set objectPrototypeMembers \<Longrightarrow>
     getProperty obj n = (case obj n of Some x \<Rightarrow> Own x | None \<Rightarrow> Absent)"
  by (simp add: getProperty_def)


lemma isScalarName_plain:
  "n \<notin> set objectPrototypeMembers \<Longrightarrow>
     isScalarName v n
       = (case map_of (scalars (config v)) n of None \<Rightarrow> False | Some s \<Rightarrow> s \<noteq> [])"
  by (simp add: isScalarName_def getProperty_plain split: option.splits)



text \<open>
  The chain writes \<^verbatim>\<open>undefined\<close> only for an enum whose name is a member of
  \<^verbatim>\<open>Object.prototype\<close>, and the read of its mapper is truthy then.
\<close>

lemma precedenceEntry_undefined:
  assumes "fst (precedenceEntry v applyWrapper T) = None"
  shows "isEnumType (typeNamed (typeMap v) T) \<and> T \<in> set objectPrototypeMembers
     \<and> isMappedType v T
     \<and> \<not> isObjectType (typeNamed (typeMap v) T)
     \<and> \<not> isInterfaceType (typeNamed (typeMap v) T)"
proof -
  have e: "isEnumType (typeNamed (typeMap v) T) \<and> T \<in> set objectPrototypeMembers
     \<and> isMappedType v T"
    using assms
    by (auto simp: precedenceEntry_def Let_def hasEnumValues_def enumTypeIdentifier_def
        isMappedType_def getProperty_def split: if_splits option.splits property.splits)
  then show ?thesis by (cases "typeNamed (typeMap v) T") auto
qed

lemma tableEntry_plain:
  assumes "T \<notin> set objectPrototypeMembers"
  shows "tableEntry v nm aw cw T = Inr (plainEntry v nm aw cw T)"
proof (cases "T \<in> set (rootTypeNames v)")
  case True
  then show ?thesis by (simp add: tableEntry_def plainEntry_def)
next
  case False
  obtain e omit used where p: "precedenceEntry v aw T = (e, omit, used)"
    by (cases "precedenceEntry v aw T") auto
  have "e \<noteq> None" using precedenceEntry_undefined[of v aw T] p assms by auto
  then show ?thesis
    using False p by (auto simp: tableEntry_def plainEntry_def resolvedEntry_def)
qed

lemma precedenceEntry_marks:
  "typeName \<notin> set (rootTypeNames v) \<Longrightarrow>
     snd (snd (precedenceEntry v applyWrapper typeName)) = marksMapper v typeName"
  by (simp add: precedenceEntry_def marksMapper_def Let_def)

lemma reducer_plain:
  assumes "T \<notin> set objectPrototypeMembers"
  shows "reducer v nm aw cw acc T = Inr (plainReducer v nm aw cw acc T)"
proof -
  obtain prev used where acc: "acc = (prev, used)" by (cases acc)
  show ?thesis
    using tableEntry_plain[OF assms, of v nm aw cw]
    by (auto simp: acc reducer_def plainReducer_def tableEntry_def markMapperAsUsed_def
        precedenceEntry_marks marksMapper_def split: sum.splits)
qed

lemma reduce_plain:
  assumes "\<And>x acc. x \<in> set xs \<Longrightarrow> f acc x = Inr (g acc x)"
  shows "reduce f acc xs = Inr (foldl g acc xs)"
  using assms by (induction xs arbitrary: acc) simp_all

lemma foldl_plainReducer_map_of:
  "map_of (fst (foldl (plainReducer v nm aw cw) acc names)) T
     = (if T \<in> set names \<and> \<not> startsWith T ''__'' then Some (plainEntry v nm aw cw T)
        else map_of (fst acc) T)"
proof (induction names arbitrary: acc)
  case Nil
  then show ?case by simp
next
  case (Cons n names)
  obtain prev used where acc: "acc = (prev, used)" by (cases acc)
  show ?case
    using Cons.IH[of "plainReducer v nm aw cw acc n"]
    by (auto simp: acc plainReducer_def update_conv')
qed

lemma foldl_plainReducer_keys:
  "set (map fst (fst (foldl (plainReducer v nm aw cw) acc names)))
     = set (map fst (fst acc)) \<union> {n \<in> set names. \<not> startsWith n ''__''}"
proof (induction names arbitrary: acc)
  case Nil
  then show ?case by simp
next
  case (Cons n names)
  obtain prev used where acc: "acc = (prev, used)" by (cases acc)
  show ?case
    using Cons.IH[of "plainReducer v nm aw cw acc n"]
    by (auto simp: acc plainReducer_def dom_update)
qed

lemma foldl_plainReducer_distinct:
  "distinct (map fst (fst acc)) \<Longrightarrow>
     distinct (map fst (fst (foldl (plainReducer v nm aw cw) acc names)))"
proof (induction names arbitrary: acc)
  case Nil
  then show ?case by simp
next
  case (Cons n names)
  obtain prev used where acc: "acc = (prev, used)" by (cases acc)
  have "distinct (map fst (fst (plainReducer v nm aw cw acc n)))"
    using Cons.prems by (simp add: acc plainReducer_def distinct_update)
  then show ?case using Cons.IH[of "plainReducer v nm aw cw acc n"] by simp
qed

lemma foldl_plainReducer_used:
  "snd (foldl (plainReducer v nm aw cw) acc names) T
     = (if T \<in> set names \<and> \<not> startsWith T ''__'' \<and> marksMapper v T then Some True
        else snd acc T)"
proof (induction names arbitrary: acc)
  case Nil
  then show ?case by simp
next
  case (Cons n names)
  obtain prev used where acc: "acc = (prev, used)" by (cases acc)
  show ?case
    using Cons.IH[of "plainReducer v nm aw cw acc n"]
    by (auto simp: acc plainReducer_def)
qed

text \<open>
  What the constructor returns on a type map without names of members of
  \<^verbatim>\<open>Object.prototype\<close>, in terms of the single turns.
\<close>

lemma construct_returns:
  assumes "2 * length (typeMap v) + 3 \<le> fuel" and "plainTypeNames v"
  shows "\<exists>nm st. dependencyTable fuel v = Some nm \<and> construct fuel v = Some (Inr st)
     \<and> (\<forall>T. map_of (resolversTypes st) T
            = (if T \<in> set (map name (typeMap v)) \<and> \<not> startsWith T ''__''
               then Some (plainEntry v nm applyResolverTypeWrapper clearResolverTypeWrapper T)
               else None))
     \<and> (\<forall>T. map_of (resolversParentTypes st) T
            = (if T \<in> set (map name (typeMap v)) \<and> \<not> startsWith T ''__''
               then Some (plainEntry v nm (\<lambda>t. t) (\<lambda>t. t) T)
               else None))
     \<and> set (map fst (resolversTypes st))
          = {n \<in> set (map name (typeMap v)). \<not> startsWith n ''__''}
     \<and> set (map fst (resolversParentTypes st))
          = {n \<in> set (map name (typeMap v)). \<not> startsWith n ''__''}
     \<and> distinct (map fst (resolversTypes st))
     \<and> distinct (map fst (resolversParentTypes st))
     \<and> (\<forall>T. usedMappers st T
            = (if T \<in> set (map name (typeMap v)) \<and> \<not> startsWith T ''__'' \<and> marksMapper v T
               then Some True else None))"
proof -
  obtain nm where nm: "dependencyTable fuel v = Some nm"
    using dependencyTable_total[OF assms(1)] by blast
  let ?names = "map name (typeMap v)"
  have plain: "\<And>x. x \<in> set ?names \<Longrightarrow> x \<notin> set objectPrototypeMembers"
    using assms(2) by (auto simp: plainTypeNames_def list_all_iff)
  let ?r1 = "foldl (plainReducer v nm applyResolverTypeWrapper clearResolverTypeWrapper)
               ([], Map.empty) ?names"
  let ?r2 = "foldl (plainReducer v nm (\<lambda>t. t) (\<lambda>t. t)) ([], snd ?r1) ?names"
  let ?st = "\<lparr> usedMappers = snd ?r2, resolversTypes = fst ?r1, resolversParentTypes = fst ?r2 \<rparr>"
  have r: "reduce (reducer v nm aw cw) acc ?names = Inr (foldl (plainReducer v nm aw cw) acc ?names)"
    for aw cw acc
    by (rule reduce_plain) (use plain reducer_plain in blast)
  have c: "construct fuel v = Some (Inr ?st)"
    by (simp add: construct_def createResolversFields_def nm r split: prod.splits)
  have u: "usedMappers ?st T
            = (if T \<in> set ?names \<and> \<not> startsWith T ''__'' \<and> marksMapper v T
               then Some True else None)" for T
    by (simp add: foldl_plainReducer_used)
  have k1: "set (map fst (resolversTypes ?st)) = {n \<in> set ?names. \<not> startsWith n ''__''}"
    using foldl_plainReducer_keys[of v nm applyResolverTypeWrapper clearResolverTypeWrapper
            "([], Map.empty)" ?names]
    by simp
  have k2: "set (map fst (resolversParentTypes ?st)) = {n \<in> set ?names. \<not> startsWith n ''__''}"
    using foldl_plainReducer_keys[of v nm "\<lambda>t. t" "\<lambda>t. t" "([], snd ?r1)" ?names]
    by simp
  have d1: "distinct (map fst (resolversTypes ?st))"
    using foldl_plainReducer_distinct[of "([], Map.empty)" v nm applyResolverTypeWrapper
            clearResolverTypeWrapper ?names]
    by simp
  have d2: "distinct (map fst (resolversParentTypes ?st))"
    using foldl_plainReducer_distinct[of "([], snd ?r1)" v nm "\<lambda>t. t" "\<lambda>t. t" ?names]
    by simp
  have m1: "map_of (resolversTypes ?st) T
            = (if T \<in> set ?names \<and> \<not> startsWith T ''__''
               then Some (plainEntry v nm applyResolverTypeWrapper clearResolverTypeWrapper T)
               else None)" for T
    by (simp add: foldl_plainReducer_map_of)
  have m2: "map_of (resolversParentTypes ?st) T
            = (if T \<in> set ?names \<and> \<not> startsWith T ''__''
               then Some (plainEntry v nm (\<lambda>t. t) (\<lambda>t. t) T)
               else None)" for T
    by (simp add: foldl_plainReducer_map_of)
  show ?thesis
    using nm c u k1 k2 d1 d2 m1 m2 by blast
qed

lemma table_entries:
  assumes "2 * length (typeMap v) + 3 \<le> fuel" and "plainTypeNames v"
    and "T \<in> set (map name (typeMap v))" and "\<not> startsWith T ''__''"
  shows "\<exists>nm. dependencyTable fuel v = Some nm
     \<and> resolversTypesEntry fuel v T
          = Some (plainEntry v nm applyResolverTypeWrapper clearResolverTypeWrapper T)
     \<and> resolversParentTypesEntry fuel v T = Some (plainEntry v nm (\<lambda>t. t) (\<lambda>t. t) T)"
proof -
  obtain nm st where "dependencyTable fuel v = Some nm" "construct fuel v = Some (Inr st)"
    "\<forall>T. map_of (resolversTypes st) T
            = (if T \<in> set (map name (typeMap v)) \<and> \<not> startsWith T ''__''
               then Some (plainEntry v nm applyResolverTypeWrapper clearResolverTypeWrapper T)
               else None)"
    "\<forall>T. map_of (resolversParentTypes st) T
            = (if T \<in> set (map name (typeMap v)) \<and> \<not> startsWith T ''__''
               then Some (plainEntry v nm (\<lambda>t. t) (\<lambda>t. t) T)
               else None)"
    using construct_returns[OF assms(1,2)] by blast
  then show ?thesis
    using assms(3,4)
    by (simp add: resolversTypesEntry_def resolversParentTypesEntry_def constructed_def)
qed


section \<open>The nesting bound does not change the result\<close>

text \<open>
  A call that returns under one bound returns the same under every larger bound, so
  from the bound of twice the number of types plus three on, the constructor gives the
  same result whatever the bound.
\<close>

lemma some_st_mono:
  assumes "\<And>x s r. x \<in> set xs \<Longrightarrow> f x s = Some r \<Longrightarrow> g x s = Some r"
    and "some_st f xs s = Some r"
  shows "some_st g xs s = Some r"
  using assms
proof (induction xs arbitrary: s)
  case Nil
  then show ?case by simp
next
  case (Cons x xs)
  obtain b s1 where fx: "f x s = Some (b, s1)"
    using Cons.prems(2) by (cases "f x s") auto
  then have gx: "g x s = Some (b, s1)" using Cons.prems(1) by simp
  show ?case
  proof (cases b)
    case True
    then have "r = (True, s1)" using fx Cons.prems(2) by simp
    then show ?thesis using gx True by simp
  next
    case False
    then have "some_st f xs s1 = Some r" using fx Cons.prems(2) by simp
    then have "some_st g xs s1 = Some r" using Cons.IH[of s1] Cons.prems(1) by simp
    then show ?thesis using gx False by simp
  qed
qed

lemma shouldMapType_Suc:
  "shouldMapType n v t cb dc = Some r \<Longrightarrow> shouldMapType (Suc n) v t cb dc = Some r"
proof (induction n arbitrary: t dc r)
  case 0
  then show ?case by simp
next
  case (Suc n)
  show ?case
  proof (cases "readValue cb (name t) = None
      \<and> \<not> (startsWith (name t) ''__'' \<or> isScalarName v (name t))
      \<and> \<not> isMappedType v (name t) \<and> (isObjectType t \<or> isInterfaceType t)")
    case False
    then show ?thesis using Suc.prems by (auto split: option.splits if_splits)
  next
    case True
    let ?f = "\<lambda>k. (\<lambda>(fieldName, ftype) dc'.
                 let fieldType = getBaseType (typeMap v) ftype in
                 (case readValue cb (name fieldType) of
                    Some x \<Rightarrow> Some (truthy x, dc')
                  | None \<Rightarrow>
                      if isMappedType v (name t) then Some (True, dc')
                      else (case shouldMapType k v fieldType cb (dc' @ [name t]) of
                              None \<Rightarrow> None
                            | Some (innerResult, dc'') \<Rightarrow> Some (truthy innerResult, dc''))))"
    let ?xs = "filter (\<lambda>(fieldName, ftype). name (getBaseType (typeMap v) ftype) \<notin> set dc)
                 (getFields t)"
    obtain b s' where a: "some_st (?f n) ?xs dc = Some (b, s')" and r: "r = (JSBoolean b, s')"
      using Suc.prems True by (auto split: option.splits)
    have "some_st (?f (Suc n)) ?xs dc = Some (b, s')"
    proof (rule some_st_mono[OF _ a])
      fix x s r' assume "x \<in> set ?xs" and fx: "?f n x s = Some r'"
      obtain fn ft where x: "x = (fn, ft)" by (cases x)
      show "?f (Suc n) x s = Some r'"
      proof (cases "readValue cb (name (getBaseType (typeMap v) ft)) = None
                    \<and> \<not> isMappedType v (name t)")
        case False
        then show ?thesis using fx unfolding x by (auto simp: Let_def split: option.splits)
      next
        case nonmemo: True
        then obtain y d where
          i: "shouldMapType n v (getBaseType (typeMap v) ft) cb (s @ [name t]) = Some (y, d)"
          and r': "r' = (truthy y, d)"
          using fx unfolding x by (auto simp: Let_def split: option.splits)
        have "shouldMapType (Suc n) v (getBaseType (typeMap v) ft) cb (s @ [name t]) = Some (y, d)"
          using Suc.IH[OF i] .
        then show ?thesis
          using nonmemo r' unfolding x by (simp add: Let_def del: shouldMapType.simps)
      qed
    qed
    then show ?thesis using True r by simp
  qed
qed

lemma shouldMapType_fuel_mono:
  "n \<le> m \<Longrightarrow> shouldMapType n v t cb dc = Some r \<Longrightarrow> shouldMapType m v t cb dc = Some r"
  by (induction m) (auto simp: le_Suc_eq dest: shouldMapType_Suc simp del: shouldMapType.simps)

lemma nestedMappingLoop_fuel_mono:
  "n \<le> m \<Longrightarrow> nestedMappingLoop n v names nm = Some r \<Longrightarrow> nestedMappingLoop m v names nm = Some r"
proof (induction names arbitrary: nm)
  case Nil
  then show ?case by simp
next
  case (Cons a names)
  obtain x dc where s: "shouldMapType n v (typeNamed (typeMap v) a) nm [] = Some (x, dc)"
    using Cons.prems(2) by (cases "shouldMapType n v (typeNamed (typeMap v) a) nm []") auto
  have "shouldMapType m v (typeNamed (typeMap v) a) nm [] = Some (x, dc)"
    using shouldMapType_fuel_mono[OF Cons.prems(1) s] .
  moreover have "nestedMappingLoop n v names (setProperty nm a x) = Some r"
    using Cons.prems(2) s by simp
  then have "nestedMappingLoop m v names (setProperty nm a x) = Some r"
    by (rule Cons.IH[OF Cons.prems(1)])
  ultimately show ?case by simp
qed

lemma construct_fuel_irrelevant:
  assumes "2 * length (typeMap v) + 3 \<le> n" and "2 * length (typeMap v) + 3 \<le> m"
  shows "construct n v = construct m v"
proof -
  let ?k = "2 * length (typeMap v) + 3"
  obtain nm where nm: "dependencyTable ?k v = Some nm"
    using dependencyTable_total[of v ?k] by auto
  have "dependencyTable n v = Some nm" "dependencyTable m v = Some nm"
    using nm nestedMappingLoop_fuel_mono[of ?k _ v "map name (typeMap v)" Map.empty nm] assms
    by (simp_all add: dependencyTable_def)
  then have eq: "createResolversFields n v = createResolversFields m v"
    by (intro ext) (simp add: createResolversFields_def)
  show ?thesis unfolding construct_def eq by (rule refl)
qed

section \<open>The tables on type maps of ordinary names\<close>

text \<open>
  On a type map none of whose names is the name of a member of \<^verbatim>\<open>Object.prototype\<close>
  the constructor returns, both tables have the same keys, each once, and a root type
  has the wrapped root-value expression as its entry.
\<close>

lemma tables_share_keys_plain:
  assumes "2 * length (typeMap v) + 3 \<le> fuel" and "plainTypeNames v"
  shows "\<exists>st. construct fuel v = Some (Inr st)
     \<and> set (map fst (resolversTypes st)) = set (map fst (resolversParentTypes st))
     \<and> set (map fst (resolversTypes st))
          = {n \<in> set (map name (typeMap v)). \<not> startsWith n ''__''}
     \<and> distinct (map fst (resolversTypes st))
     \<and> distinct (map fst (resolversParentTypes st))"
proof -
  obtain st where "construct fuel v = Some (Inr st)"
    "set (map fst (resolversTypes st)) = {n \<in> set (map name (typeMap v)). \<not> startsWith n ''__''}"
    "set (map fst (resolversParentTypes st)) = {n \<in> set (map name (typeMap v)). \<not> startsWith n ''__''}"
    "distinct (map fst (resolversTypes st))" "distinct (map fst (resolversParentTypes st))"
    using construct_returns[OF assms] by blast
  then show ?thesis by simp
qed

lemma root_type_entry_plain:
  assumes "2 * length (typeMap v) + 3 \<le> fuel" and "plainTypeNames v"
    and "T \<in> set (map name (typeMap v))" and "\<not> startsWith T ''__''"
    and "T \<in> set (rootTypeNames v)"
  shows "resolversTypesEntry fuel v T
           = Some (applyResolverTypeWrapper (type (rootValueType (config v))))
     \<and> resolversParentTypesEntry fuel v T = Some (type (rootValueType (config v)))"
  using table_entries[OF assms(1-4)] assms(5) by (auto simp: plainEntry_def tableEntry_def)

text \<open>
  Claim C1 fails on the code. On the schema of a query type with a field of an enum
  named \<^verbatim>\<open>constructor\<close> the turn of that enum reads the inherited
  \<^verbatim>\<open>enumValues['constructor']\<close>, writes its \<^verbatim>\<open>typeIdentifier\<close>, which is
  \<^verbatim>\<open>undefined\<close>, and \<^verbatim>\<open>hasPlaceholder\<close> throws on it: the constructor throws a
  \<^verbatim>\<open>TypeError\<close> and neither table exists.
\<close>

theorem construct_throws_on_enum_named_constructor:
  "map name (typeMap enumConstructorVisitor) = [''Query'', ''constructor'']
   \<and> thrown 7 enumConstructorVisitor = Some TypeError
   \<and> resolversTypesKeys 7 enumConstructorVisitor = None
   \<and> resolversParentTypesKeys 7 enumConstructorVisitor = None"
  by code_simp


section \<open>The dependency table and the field override on inherited members\<close>

text \<open>
  Claim C2 fails on the code. The calls return under the nesting bound on every type
  map, but not always a boolean: for the object type named \<^verbatim>\<open>constructor\<close> the first
  test reads the inherited \<^verbatim>\<open>checkedBefore['constructor']\<close> and returns that function,
  which \<^verbatim>\<open>nestedMapping\<close> then holds; and the type \<^verbatim>\<open>Holder\<close>, whose one field is of
  that type, is marked true though nothing is mapped.
\<close>

theorem shouldMapType_returns_inherited_member:
  "mappers (config holderVisitor) = []
   \<and> shouldMapType 9 holderVisitor (typeNamed (typeMap holderVisitor) ''constructor'')
         Map.empty []
       = Some (JSInheritedMember, [])
   \<and> dependencyEntry 9 holderVisitor ''constructor'' = Some JSInheritedMember
   \<and> dependencyEntry 9 holderVisitor ''Holder'' = Some (JSBoolean True)
   \<and> dependencyEntry 9 holderVisitor ''String'' = Some (JSBoolean False)"
  by code_simp

text \<open>
  The fields that get a replacement, by the reads as the code makes them: those whose
  base type has a truthy read in \<^verbatim>\<open>config.mappers\<close>, or is a union, or has a truthy
  read in \<^verbatim>\<open>nestedMapping\<close>.
\<close>

lemma map_filter_as_map_filter:
  assumes "\<And>x. f x = (if P x then Some (g x) else None)"
  shows "List.map_filter f xs = map g (filter P xs)"
  by (induction xs) (simp_all add: List.map_filter_simps assms)

lemma relevantFields_filter:
  "relevantFields v nestedMapping flds
     = map (\<lambda>(f, ft). \<lparr> addOptionalSign = (\<not> avoidOptionals (config v) \<and> \<not> isNonNullType ft),
                         fieldName = f,
                         replaceWithType =
                           wrapTypeWithModifiers (getTypeToUse v (baseTypeName ft)) ft \<rparr>)
           (filter (\<lambda>(f, ft). isMappedType v (baseTypeName ft)
                                \<or> isNestedMapped nestedMapping (baseTypeName ft)
                                \<or> isUnionType (typeNamed (typeMap v) (baseTypeName ft)))
                   flds)"
  unfolding relevantFields_def
  by (rule map_filter_as_map_filter)
     (auto simp: relevantField_def getBaseType_def Let_def split: prod.splits)

text \<open>
  Claim C5 fails on the code by the same defect of inherited reads. The field \<^verbatim>\<open>c\<close> of
  \<^verbatim>\<open>Holder\<close> has the base type \<^verbatim>\<open>constructor\<close>, an object type: no mapper is
  configured, the type is no union, and its entry in \<^verbatim>\<open>nestedMapping\<close> is no
  boolean; yet \<^verbatim>\<open>config.mappers['constructor']\<close> and \<^verbatim>\<open>nestedMapping['constructor']\<close>
  are truthy, and the field is replaced.
\<close>

theorem field_of_type_named_constructor_replaced:
  "mappers (config holderVisitor) = []
   \<and> getFields (typeNamed (typeMap holderVisitor) ''Holder'')
       = [(''c'', GraphQLNamed ''constructor'')]
   \<and> \<not> isUnionType (typeNamed (typeMap holderVisitor) ''constructor'')
   \<and> dependencyEntry 9 holderVisitor ''constructor'' \<noteq> Some (JSBoolean True)
   \<and> relevantFields holderVisitor Map.empty
         (getFields (typeNamed (typeMap holderVisitor) ''Holder''))
       = [\<lparr> addOptionalSign = True, fieldName = ''c'',
            replaceWithType = ''Maybe<ResolversTypes['constructor']>'' \<rparr>]
   \<and> resolversTypesEntry 9 holderVisitor ''Holder''
       = Some ''ResolverTypeWrapper<Omit<Holder, 'c'> & { c?: Maybe<ResolversTypes['constructor']> }>''"
  by code_simp

section \<open>Unused mappers\<close>

text \<open>
  For a mapper key that does not name a member of \<^verbatim>\<open>Object.prototype\<close> the test of
  \<^verbatim>\<open>unusedMappers\<close> is the test of the own mark.
\<close>

lemma unusedMappers_plain:
  assumes "\<forall>n \<in> set (map fst (mappers (config v))). n \<notin> set objectPrototypeMembers"
  shows "set (unusedMappers v st)
           = set (map fst (mappers (config v))) - {n. usedMappers st n = Some True}"
  using assms
  by (auto simp: unusedMappers_def isUsedMapper_def getProperty_def split: option.splits)

text \<open>
  Claim C9 fails on the code by the same defect of inherited reads. With mappers
  registered under \<^verbatim>\<open>toString\<close> and \<^verbatim>\<open>Ghost\<close>, neither one the name of a type, no
  mapper is marked as used, so both names are unused; the read
  \<^verbatim>\<open>_usedMappers['toString']\<close> is the inherited function, truthy, and \<^verbatim>\<open>unusedMappers\<close>
  reports \<^verbatim>\<open>Ghost\<close> only.
\<close>

theorem unusedMappers_misses_toString:
  "map fst (mappers (config toStringVisitor)) = [''toString'', ''Ghost'']
   \<and> usedMapperEntry 17 toStringVisitor ''toString'' = None
   \<and> usedMapperEntry 17 toStringVisitor ''Ghost'' = None
   \<and> unusedMappersAfter 17 toStringVisitor = Some [''Ghost'']"
  by code_simp

section \<open>Precedence of the explicit mapper\<close>






text \<open>
  Claim C7 fails on the code. For the mapper \<^verbatim>\<open>Partial<{T}>\<close> of \<^verbatim>\<open>User\<close>, under a name
  converter that puts the prefix \<^verbatim>\<open>I\<close>, the placeholder is replaced by the name
  \<^verbatim>\<open>User\<close> as the schema has it, not by the converted name \<^verbatim>\<open>IUser\<close>. The sibling
  step for the default mapper \<^verbatim>\<open>Partial<{T}>\<close> does put the converted name.
\<close>

theorem mapper_placeholder_not_converted:
  "map_of (mappers (config blogVisitor)) ''User'' = Some (literalMapper ''Partial<{T}>'')
   \<and> convertName blogVisitor ''User'' = ''IUser''
   \<and> replacePlaceholder (applyResolverTypeWrapper ''Partial<{T}>'')
         (convertName blogVisitor ''User'')
       = ''ResolverTypeWrapper<Partial<IUser>>''
   \<and> resolversTypesEntry 17 blogVisitor ''User'' = Some ''ResolverTypeWrapper<Partial<User>>''
   \<and> defaultMapper (config partialVisitor) = Some (literalMapper ''Partial<{T}>'')
   \<and> resolversTypesEntry 17 partialVisitor ''User''
       = Some ''ResolverTypeWrapper<Partial<IUser>>''"
  by code_simp

section \<open>Union types\<close>

lemma plainEntry_union:
  assumes "T \<notin> set (rootTypeNames v)"
    and "typeNamed (typeMap v) T = GraphQLUnionType T members"
    and "\<not> (isMappedType v T \<and> mapperTypeOf v T \<noteq> [])"
    and "\<not> (hasDefaultMapper v \<and> \<not> hasPlaceholder (defaultMapperType v))"
    and "\<not> isScalarName v T"
    and "isMappedType v T \<longrightarrow> \<not> hasPlaceholder (join (map (getTypeToUse v) members) '' | '')"
  shows "plainEntry v nm aw cw T
           = (if \<not> isMappedType v T \<and> hasDefaultMapper v
              then replacePlaceholder (defaultMapperType v)
                     (cw (join (map (getTypeToUse v) members) '' | ''))
              else join (map (getTypeToUse v) members) '' | '')"
  using assms
  by (auto simp: plainEntry_def tableEntry_def resolvedEntry_def precedenceEntry_def
      fieldOverride_def mapperPlaceholder_def defaultMapperPlaceholder_def Let_def)

text \<open>
  Claim C6, as the code has it by design. In a schema none of whose type names is the
  name of a member of \<^verbatim>\<open>Object.prototype\<close>, the entry of a union type that reaches the
  union branch is built from the lookups \<^verbatim>\<open>ResolversTypes['Member']\<close>, one per member in
  member order, joined with \<^verbatim>\<open> | \<close>, and is not wrapped. It is that disjunction, unless
  a default mapper that holds the placeholder is configured and the type has no explicit
  mapper: then it is the default mapper's expression with its placeholder replaced by
  the disjunction (after \<open>clearResolverTypeWrapper\<close>).
\<close>

theorem union_entry:
  assumes "2 * length (typeMap v) + 3 \<le> fuel" and "plainTypeNames v"
    and "T \<in> set (map name (typeMap v))" and "\<not> startsWith T ''__''"
    and "T \<notin> set (rootTypeNames v)"
    and "typeNamed (typeMap v) T = GraphQLUnionType T members"
    and "\<not> (isMappedType v T \<and> mapperTypeOf v T \<noteq> [])"
    and "\<not> (hasDefaultMapper v \<and> \<not> hasPlaceholder (defaultMapperType v))"
    and "\<not> isScalarName v T"
    and "isMappedType v T \<longrightarrow> \<not> hasPlaceholder (join (map (getTypeToUse v) members) '' | '')"
  shows "resolversTypesEntry fuel v T
           = Some (if \<not> isMappedType v T \<and> hasDefaultMapper v
                   then replacePlaceholder (defaultMapperType v)
                          (clearResolverTypeWrapper
                             (join (map (getTypeToUse v) members) '' | ''))
                   else join (map (getTypeToUse v) members) '' | '')"
  using table_entries[OF assms(1-4)]
    plainEntry_union[OF assms(5-10), of _ applyResolverTypeWrapper clearResolverTypeWrapper]
  by auto

theorem union_entry_witness:
  "(2 * length (typeMap unionVisitor) + 3 \<le> 17 \<and> plainTypeNames unionVisitor
    \<and> ''SearchResult'' \<in> set (map name (typeMap unionVisitor))
    \<and> \<not> startsWith ''SearchResult'' ''__''
    \<and> ''SearchResult'' \<notin> set (rootTypeNames unionVisitor)
    \<and> typeNamed (typeMap unionVisitor) ''SearchResult''
        = GraphQLUnionType ''SearchResult'' [''User'', ''Post'']
    \<and> \<not> isMappedType unionVisitor ''SearchResult''
    \<and> \<not> hasDefaultMapper unionVisitor
    \<and> \<not> isScalarName unionVisitor ''SearchResult''
    \<and> resolversTypesEntry 17 unionVisitor ''SearchResult''
        = Some ''ResolversTypes['User'] | ResolversTypes['Post']'')
   \<and> (plainTypeNames partialVisitor
    \<and> typeNamed (typeMap partialVisitor) ''SearchResult''
        = GraphQLUnionType ''SearchResult'' [''User'', ''Post'']
    \<and> \<not> isMappedType partialVisitor ''SearchResult''
    \<and> hasDefaultMapper partialVisitor \<and> hasPlaceholder (defaultMapperType partialVisitor)
    \<and> \<not> isScalarName partialVisitor ''SearchResult''
    \<and> resolversTypesEntry 17 partialVisitor ''SearchResult''
        = Some ''Partial<IResolversTypes['User'] | IResolversTypes['Post']>'')"
proof -
  have h: "2 * length (typeMap unionVisitor) + 3 \<le> 17" "plainTypeNames unionVisitor"
    "''SearchResult'' \<in> set (map name (typeMap unionVisitor))"
    "\<not> startsWith ''SearchResult'' ''__''"
    "''SearchResult'' \<notin> set (rootTypeNames unionVisitor)"
    "typeNamed (typeMap unionVisitor) ''SearchResult''
       = GraphQLUnionType ''SearchResult'' [''User'', ''Post'']"
    "\<not> (isMappedType unionVisitor ''SearchResult''
          \<and> mapperTypeOf unionVisitor ''SearchResult'' \<noteq> [])"
    "\<not> (hasDefaultMapper unionVisitor \<and> \<not> hasPlaceholder (defaultMapperType unionVisitor))"
    "\<not> isScalarName unionVisitor ''SearchResult''"
    "isMappedType unionVisitor ''SearchResult'' \<longrightarrow>
       \<not> hasPlaceholder (join (map (getTypeToUse unionVisitor) [''User'', ''Post'']) '' | '')"
    by code_simp+
  have g: "2 * length (typeMap partialVisitor) + 3 \<le> 17" "plainTypeNames partialVisitor"
    "''SearchResult'' \<in> set (map name (typeMap partialVisitor))"
    "\<not> startsWith ''SearchResult'' ''__''"
    "''SearchResult'' \<notin> set (rootTypeNames partialVisitor)"
    "typeNamed (typeMap partialVisitor) ''SearchResult''
       = GraphQLUnionType ''SearchResult'' [''User'', ''Post'']"
    "\<not> (isMappedType partialVisitor ''SearchResult''
          \<and> mapperTypeOf partialVisitor ''SearchResult'' \<noteq> [])"
    "\<not> (hasDefaultMapper partialVisitor \<and> \<not> hasPlaceholder (defaultMapperType partialVisitor))"
    "\<not> isScalarName partialVisitor ''SearchResult''"
    "isMappedType partialVisitor ''SearchResult'' \<longrightarrow>
       \<not> hasPlaceholder (join (map (getTypeToUse partialVisitor) [''User'', ''Post'']) '' | '')"
    by code_simp+
  have e: "\<not> isMappedType unionVisitor ''SearchResult''" "\<not> hasDefaultMapper unionVisitor"
    "join (map (getTypeToUse unionVisitor) [''User'', ''Post'']) '' | ''
       = ''ResolversTypes['User'] | ResolversTypes['Post']''"
    "\<not> isMappedType partialVisitor ''SearchResult''" "hasDefaultMapper partialVisitor"
    "hasPlaceholder (defaultMapperType partialVisitor)"
    "replacePlaceholder (defaultMapperType partialVisitor)
       (clearResolverTypeWrapper
          (join (map (getTypeToUse partialVisitor) [''User'', ''Post'']) '' | ''))
       = ''Partial<IResolversTypes['User'] | IResolversTypes['Post']>''"
    by code_simp+
  show ?thesis
    using union_entry[OF h] union_entry[OF g] h g e by simp
qed

text \<open>
  The claim as it is stated fails under a default mapper that holds the placeholder: the
  union reaches the union branch, and its entry is the default mapper's expression
  around the disjunction, not the disjunction.
\<close>

theorem union_entry_under_default_mapper:
  "typeNamed (typeMap partialVisitor) ''SearchResult''
       = GraphQLUnionType ''SearchResult'' [''User'', ''Post'']
   \<and> \<not> isMappedType partialVisitor ''SearchResult''
   \<and> hasPlaceholder (defaultMapperType partialVisitor)
   \<and> \<not> isScalarName partialVisitor ''SearchResult''
   \<and> ''SearchResult'' \<notin> set (rootTypeNames partialVisitor)
   \<and> join (map (getTypeToUse partialVisitor) [''User'', ''Post'']) '' | ''
       = ''IResolversTypes['User'] | IResolversTypes['Post']''
   \<and> resolversTypesEntry 17 partialVisitor ''SearchResult''
       = Some ''Partial<IResolversTypes['User'] | IResolversTypes['Post']>''
   \<and> resolversTypesEntry 17 partialVisitor ''SearchResult''
       \<noteq> Some (join (map (getTypeToUse partialVisitor) [''User'', ''Post'']) '' | '')"
  by code_simp

section \<open>The wrapper on a two-line expression\<close>

text \<open>
  Claim C10 fails on the code. The pattern that strips a leading wrapper uses a dot,
  which matches no line terminator, so on the two-line string \<^verbatim>\<open>a\nb\<close> the second
  application strips nothing and nests the wrapper. The tables show it: under the
  default mapper \<^verbatim>\<open>a\nb\<close> the entry of an interface type without replaced fields is
  wrapped twice.
\<close>

theorem wrapper_nested_on_multiline_expression:
  "applyResolverTypeWrapper [CHR ''a'', CHR 0x0A, CHR ''b'']
       = ''ResolverTypeWrapper<'' @ [CHR ''a'', CHR 0x0A, CHR ''b''] @ ''>''
   \<and> applyResolverTypeWrapper (applyResolverTypeWrapper [CHR ''a'', CHR 0x0A, CHR ''b''])
       = ''ResolverTypeWrapper<ResolverTypeWrapper<'' @ [CHR ''a'', CHR 0x0A, CHR ''b''] @ ''>>''
   \<and> applyResolverTypeWrapper (applyResolverTypeWrapper [CHR ''a'', CHR 0x0A, CHR ''b''])
       \<noteq> applyResolverTypeWrapper [CHR ''a'', CHR 0x0A, CHR ''b'']
   \<and> defaultMapperType multilineVisitor = [CHR ''a'', CHR 0x0A, CHR ''b'']
   \<and> isInterfaceType (typeNamed (typeMap multilineVisitor) ''Node'')
   \<and> resolversTypesEntry 7 multilineVisitor ''Node''
       = Some (''ResolverTypeWrapper<ResolverTypeWrapper<'' @ [CHR ''a'', CHR 0x0A, CHR ''b'']
               @ ''>>'')"
  by code_simp

end
